theory Spec2Isabelle
  imports Complex_Main "HOL-Library.Multiset"
begin

section \<open>Python values and errors\<close>

text \<open>
  The module \<^verbatim>\<open>nearby_places_overpass.py\<close> is embedded function by function. Python
  names that start with an underscore lose it (\<^verbatim>\<open>_overpass_post\<close> is \<open>overpass_post\<close>).
  Python ints are modelled as \<open>int\<close>. A \<^verbatim>\<open>str\<close> is a \<open>string\<close> whose characters are
  the code points below 256; text with other code points is outside the model. A
  \<^verbatim>\<open>dict\<close> with string keys is an association list in insertion order. A float is a
  real number; the rounding of floating point arithmetic is not modelled, and where a
  result depends on it (the distances the searches compute) the computation is a
  parameter of the model.
\<close>

type_synonym 'v dict = "(string \<times> 'v) list"

text \<open>Exceptions that an attempt of the transport client can raise and catch.\<close>

datatype exc =
    RequestException string  \<comment> \<open>network failure, timeout: raised by \<^verbatim>\<open>requests.post\<close>\<close>
  | HTTPError int            \<comment> \<open>raised by \<^verbatim>\<open>resp.raise_for_status()\<close>\<close>
  | JSONDecodeError          \<comment> \<open>raised by \<^verbatim>\<open>resp.json()\<close>\<close>

text \<open>
  Errors that leave the module. \<open>RuntimeError\<close> carries the value of \<^verbatim>\<open>last_err\<close>
  that the message \<^verbatim>\<open>f"Overpass request failed after retries: {last_err}"\<close> formats.
\<close>

datatype error =
    RuntimeError "exc option"
  | ValueError string
  | TypeError string
  | KeyError string

section \<open>The transport client\<close>

text \<open>
  A request as \<^verbatim>\<open>requests.post(overpass_url, data={"data": query}, headers=headers,
  timeout=timeout_s)\<close> sends it. The query text is kept abstract (type \<open>'q\<close>).
\<close>

record 'q request =
  req_url :: string
  req_data :: 'q
  req_headers :: "string dict"
  req_timeout :: int

text \<open>
  What one call of \<^verbatim>\<open>requests.post\<close> does: it raises, or it returns a response with
  a status code and a body; the body is \<open>Some j\<close> when \<^verbatim>\<open>resp.json()\<close> parses it to
  \<open>j\<close> and \<open>None\<close> when \<^verbatim>\<open>resp.json()\<close> raises.
\<close>

datatype 'j http_outcome =
    PostRaises exc
  | Response int "'j option"

text \<open>
  The endpoint: the outcome of the \<open>i\<close>-th call (counted from 0) of \<^verbatim>\<open>requests.post\<close>
  within one run of the client, for the request sent.
\<close>

type_synonym ('q, 'j) endpoint = "'q request \<Rightarrow> nat \<Rightarrow> 'j http_outcome"

text \<open>The observable effects of a run, in order.\<close>

datatype 'q event =
    Post "'q request"
  | Sleep real

text \<open>
  The body of the \<^verbatim>\<open>try\<close> block, lines 96 to 102: the transient status codes lead to
  \<^verbatim>\<open>continue\<close>; \<^verbatim>\<open>raise_for_status\<close> raises for a status from 400 to 599;
  \<^verbatim>\<open>resp.json()\<close> returns or raises.
\<close>

datatype 'j attempt_result =
    Transient_Status int
  | Raised exc
  | Returned 'j

definition transient_status :: "int \<Rightarrow> bool" where
  "transient_status s = (s = 429 \<or> s = 502 \<or> s = 503 \<or> s = 504)"

fun try_body :: "'j http_outcome \<Rightarrow> 'j attempt_result" where
  "try_body (PostRaises e) = Raised e"
| "try_body (Response status body) =
     (if transient_status status then Transient_Status status
      else if 400 \<le> status \<and> status < 600 then Raised (HTTPError status)
      else (case body of None \<Rightarrow> Raised JSONDecodeError | Some j \<Rightarrow> Returned j))"

text \<open>
  The \<^verbatim>\<open>for _ in range(max_retries)\<close> loop, lines 94 to 108. The arguments are the
  number of iterations left, the index of the next call, \<^verbatim>\<open>backoff\<close> and
  \<^verbatim>\<open>last_err\<close>. Only the \<^verbatim>\<open>except\<close> branch assigns \<^verbatim>\<open>last_err\<close>.
\<close>

fun retry_loop ::
  "('q, 'j) endpoint \<Rightarrow> 'q request \<Rightarrow> nat \<Rightarrow> nat \<Rightarrow> real \<Rightarrow> exc option
    \<Rightarrow> 'q event list \<times> (error + 'j)" where
  "retry_loop endpoint req 0 i backoff last_err = ([], Inl (RuntimeError last_err))"
| "retry_loop endpoint req (Suc n) i backoff last_err =
     (case try_body (endpoint req i) of
        Transient_Status s \<Rightarrow>
          (let (trace, res) = retry_loop endpoint req n (Suc i) (backoff * 2) last_err
           in (Post req # Sleep backoff # trace, res))
      | Raised e \<Rightarrow>
          (let (trace, res) = retry_loop endpoint req n (Suc i) (backoff * 2) (Some e)
           in (Post req # Sleep backoff # trace, res))
      | Returned j \<Rightarrow> ([Post req], Inr j))"

text \<open>
  Line 89 and the arguments of \<^verbatim>\<open>requests.post\<close> on line 96: the request that every
  attempt of one run sends.
\<close>

definition post_request :: "'q \<Rightarrow> string \<Rightarrow> string \<Rightarrow> int \<Rightarrow> 'q request" where
  "post_request query overpass_url user_agent timeout_s =
     (let headers = [(''User-Agent'', user_agent), (''Accept'', ''application/json'')]
      in \<lparr>req_url = overpass_url, req_data = query, req_headers = headers,
            req_timeout = timeout_s\<rparr>)"

text \<open>
  \<^verbatim>\<open>range(max_retries)\<close> is empty for a negative \<^verbatim>\<open>max_retries\<close>, hence \<open>nat\<close>. The
  first \<^verbatim>\<open>backoff\<close> is 1.25 and \<^verbatim>\<open>last_err\<close> starts as \<^verbatim>\<open>None\<close>. Doubling 1.25 is
  exact in binary floating point, so the real number is the float.
\<close>

definition overpass_post ::
  "('q, 'j) endpoint \<Rightarrow> 'q \<Rightarrow> string \<Rightarrow> string \<Rightarrow> int \<Rightarrow> int
    \<Rightarrow> 'q event list \<times> (error + 'j)" where
  "overpass_post endpoint query overpass_url user_agent timeout_s max_retries =
     retry_loop endpoint (post_request query overpass_url user_agent timeout_s)
       (nat max_retries) 0 1.25 None"

text \<open>Reading a run: the number of calls of \<^verbatim>\<open>requests.post\<close> and the sleeps made.\<close>

fun is_post :: "'q event \<Rightarrow> bool" where
  "is_post (Post r) = True"
| "is_post (Sleep d) = False"

definition attempts :: "'q event list \<Rightarrow> nat" where
  "attempts trace = length (filter is_post trace)"

fun sleeps :: "'q event list \<Rightarrow> real list" where
  "sleeps [] = []"
| "sleeps (Post r # trace) = sleeps trace"
| "sleeps (Sleep d # trace) = d # sleeps trace"

text \<open>An attempt fails when the \<^verbatim>\<open>try\<close> block does not reach \<^verbatim>\<open>return\<close>.\<close>

fun failed :: "'j http_outcome \<Rightarrow> bool" where
  "failed outcome = (case try_body outcome of Returned j \<Rightarrow> False | _ \<Rightarrow> True)"

text \<open>
  The trace of \<open>n\<close> failed attempts in a row: each is a call followed by a sleep, and
  the \<open>k\<close>-th sleep (from 0) lasts the first delay times \<open>2 ^ k\<close>.
\<close>

definition backoff_trace :: "'q request \<Rightarrow> real \<Rightarrow> nat \<Rightarrow> 'q event list" where
  "backoff_trace req b n = concat (map (\<lambda>k. [Post req, Sleep (b * 2 ^ k)]) [0..<n])"

section \<open>Strings\<close>

text \<open>
  \<^verbatim>\<open>str.strip()\<close> removes the characters that are whitespace for Python. Below 256
  these are the space, tab, line feed, vertical tab, form feed, carriage return, the
  four separators 0x1C to 0x1F, the next line character 0x85 and the no-break space
  0xA0.
\<close>

definition py_isspace :: "char \<Rightarrow> bool" where
  "py_isspace c = (c \<in> set [CHR '' '', CHR 0x09, CHR 0x0A, CHR 0x0B, CHR 0x0C, CHR 0x0D,
                              CHR 0x1C, CHR 0x1D, CHR 0x1E, CHR 0x1F, CHR 0x85, CHR 0xA0])"

definition py_strip :: "string \<Rightarrow> string" where
  "py_strip s = rev (dropWhile py_isspace (rev (dropWhile py_isspace s)))"

text \<open>
  \<^verbatim>\<open>str.lower()\<close> maps each capital letter to its small letter. Below 256 the capital
  letters are A to Z and the letters 0xC0 to 0xDE without the multiplication sign 0xD7;
  the small letter is 0x20 higher.
\<close>

definition capital_letters :: string where
  "capital_letters = ''ABCDEFGHIJKLMNOPQRSTUVWXYZ'' @
       [CHR 0xC0, CHR 0xC1, CHR 0xC2, CHR 0xC3, CHR 0xC4, CHR 0xC5, CHR 0xC6, CHR 0xC7,
        CHR 0xC8, CHR 0xC9, CHR 0xCA, CHR 0xCB, CHR 0xCC, CHR 0xCD, CHR 0xCE, CHR 0xCF,
        CHR 0xD0, CHR 0xD1, CHR 0xD2, CHR 0xD3, CHR 0xD4, CHR 0xD5, CHR 0xD6, CHR 0xD8,
        CHR 0xD9, CHR 0xDA, CHR 0xDB, CHR 0xDC, CHR 0xDD, CHR 0xDE]"

definition small_letters :: string where
  "small_letters = ''abcdefghijklmnopqrstuvwxyz'' @
       [CHR 0xE0, CHR 0xE1, CHR 0xE2, CHR 0xE3, CHR 0xE4, CHR 0xE5, CHR 0xE6, CHR 0xE7,
        CHR 0xE8, CHR 0xE9, CHR 0xEA, CHR 0xEB, CHR 0xEC, CHR 0xED, CHR 0xEE, CHR 0xEF,
        CHR 0xF0, CHR 0xF1, CHR 0xF2, CHR 0xF3, CHR 0xF4, CHR 0xF5, CHR 0xF6, CHR 0xF8,
        CHR 0xF9, CHR 0xFA, CHR 0xFB, CHR 0xFC, CHR 0xFD, CHR 0xFE]"

definition lower_char :: "char \<Rightarrow> char" where
  "lower_char c =
     (case map_of (zip capital_letters small_letters) c of Some d \<Rightarrow> d | None \<Rightarrow> c)"

definition py_lower :: "string \<Rightarrow> string" where
  "py_lower s = map lower_char s"

text \<open>\<^verbatim>\<open>sep.join(parts)\<close>.\<close>

fun join :: "string \<Rightarrow> string list \<Rightarrow> string" where
  "join sep [] = []"
| "join sep [x] = x"
| "join sep (x # y # ys) = x @ sep @ join sep (y # ys)"

text \<open>
  \<^verbatim>\<open>v or None\<close> for a string and for an optional string: the empty string is falsy.
\<close>

definition or_none :: "string \<Rightarrow> string option" where
  "or_none s = (if s = [] then None else Some s)"

definition truthy :: "string option \<Rightarrow> string option" where
  "truthy v = (case v of None \<Rightarrow> None | Some s \<Rightarrow> or_none s)"

section \<open>Distance\<close>

text \<open>
  \<^verbatim>\<open>_haversine_m\<close>, lines 38 to 45, in exact arithmetic. \<^verbatim>\<open>math.sqrt\<close> and
  \<^verbatim>\<open>math.asin\<close> raise \<^verbatim>\<open>ValueError\<close> outside their domains.
\<close>

definition radians :: "real \<Rightarrow> real" where
  "radians x = x * pi / 180"

definition math_sqrt :: "real \<Rightarrow> error + real" where
  "math_sqrt x = (if x < 0 then Inl (ValueError ''math domain error'') else Inr (sqrt x))"

definition math_asin :: "real \<Rightarrow> error + real" where
  "math_asin x =
     (if x < - 1 \<or> 1 < x then Inl (ValueError ''math domain error'') else Inr (arcsin x))"

definition haversine_m :: "real \<Rightarrow> real \<Rightarrow> real \<Rightarrow> real \<Rightarrow> error + real" where
  "haversine_m lat1 lon1 lat2 lon2 =
     (let r = 6371000;
          p1 = radians lat1;
          p2 = radians lat2;
          dp = radians (lat2 - lat1);
          dl = radians (lon2 - lon1);
          a = (sin (dp / 2))\<^sup>2 + cos p1 * cos p2 * (sin (dl / 2))\<^sup>2
      in case math_sqrt a of
           Inl e \<Rightarrow> Inl e
         | Inr s \<Rightarrow> (case math_asin s of Inl e \<Rightarrow> Inl e | Inr t \<Rightarrow> Inr (2 * r * t)))"

text \<open>\<^verbatim>\<open>round(x)\<close> of a float: to the nearest int, a tie to the even one.\<close>

definition py_round :: "real \<Rightarrow> int" where
  "py_round x =
     (let f = \<lfloor>x\<rfloor>; d = x - of_int f
      in if d < 1 / 2 then f else if 1 / 2 < d then f + 1 else if even f then f else f + 1)"

text \<open>
  \<^verbatim>\<open>round(_haversine_m(latitude, longitude, plat, plon))\<close>, lines 153 and 231: the int
  the searches store in a record, or the exception raised on the way. In floating
  point arithmetic the argument of the square root can leave the interval from 0 to 1
  by a rounding error, and the value rounded can differ from the exact one, so the
  searches take this function as a parameter: what is proved of them holds for every
  such function. \<open>exact_distance\<close> is the function of exact arithmetic.
\<close>

type_synonym distance = "real \<Rightarrow> real \<Rightarrow> real \<Rightarrow> real \<Rightarrow> error + int"

definition exact_distance :: distance where
  "exact_distance lat1 lon1 lat2 lon2 =
     (case haversine_m lat1 lon1 lat2 lon2 of Inl e \<Rightarrow> Inl e | Inr x \<Rightarrow> Inr (py_round x))"

section \<open>Raw elements and output records\<close>

text \<open>
  The response body as the module expects it: an object whose key \<^verbatim>\<open>elements\<close> holds
  a list of element objects. An element has the keys \<^verbatim>\<open>lat\<close> and \<^verbatim>\<open>lon\<close> or an object
  under \<^verbatim>\<open>center\<close>, and a mapping of strings to strings under \<^verbatim>\<open>tags\<close>. \<open>None\<close> is
  an absent key; a key that is present holds a value of its type (in \<open>coords\<close>, \<open>None\<close>
  is also a null).
\<close>

record coords =
  c_lat :: "real option"
  c_lon :: "real option"

record element =
  el_lat :: "real option"
  el_lon :: "real option"
  el_center :: "coords option"
  el_tags :: "string dict option"

record response =
  resp_elements :: "element list option"

text \<open>Values of an output record.\<close>

datatype pyval = PNone | PStr string | PInt int

definition opt_str :: "string option \<Rightarrow> pyval" where
  "opt_str v = (case v of None \<Rightarrow> PNone | Some s \<Rightarrow> PStr s)"

definition build_address :: "string dict \<Rightarrow> string option" where
  "build_address tags =
     (if tags = [] then None
      else
        (case truthy (map_of tags ''addr:full'') of
           Some full \<Rightarrow> or_none (py_strip full)
         | None \<Rightarrow>
             (let parts = List.map_filter (\<lambda>k. truthy (map_of tags k))
                    [''addr:housenumber'', ''addr:street'', ''addr:district'', ''addr:city'',
                     ''addr:postcode''];
                  parts2 =
                    (if parts = [] then
                       (case truthy (map_of tags ''contact:address'') of
                          Some v \<Rightarrow> parts @ [v]
                        | None \<Rightarrow> parts)
                     else parts);
                  addr = py_strip (join '' '' parts2)
              in or_none addr)))"

definition extract_center :: "element \<Rightarrow> (real \<times> real) option" where
  "extract_center el =
     (case (el_lat el, el_lon el) of
        (Some la, Some lo) \<Rightarrow> Some (la, lo)
      | _ \<Rightarrow>
          (case el_center el of
             None \<Rightarrow> None
           | Some center \<Rightarrow>
               (case (c_lat center, c_lon center) of
                  (Some la, Some lo) \<Rightarrow> Some (la, lo)
                | _ \<Rightarrow> None)))"

definition to_output_record :: "string option \<Rightarrow> string option \<Rightarrow> int \<Rightarrow> pyval dict" where
  "to_output_record name address distance_m =
     [(''name'', opt_str name),
      (''address'', opt_str address),
      (''rating'', PNone),
      (''distance_m'', PInt distance_m)]"

text \<open>
  Lines 150 to 152 and 228 to 230: \<^verbatim>\<open>tags = el.get("tags") or {}\<close>,
  \<^verbatim>\<open>name = tags.get("name") or None\<close>, \<^verbatim>\<open>address = _build_address(tags)\<close>.
\<close>

definition element_tags :: "element \<Rightarrow> string dict" where
  "element_tags el = (case el_tags el of None \<Rightarrow> [] | Some t \<Rightarrow> t)"

definition element_name :: "element \<Rightarrow> string option" where
  "element_name el = truthy (map_of (element_tags el) ''name'')"

definition element_address :: "element \<Rightarrow> string option" where
  "element_address el = build_address (element_tags el)"

section \<open>Sorting and truncating\<close>

text \<open>
  \<^verbatim>\<open>records.sort(key=lambda x: x["distance_m"])\<close> computes the key of every record
  first (a missing key raises \<^verbatim>\<open>KeyError\<close>), then sorts stably by the keys. The keys
  are ints in every record this module builds; any other value is reported as
  \<^verbatim>\<open>TypeError\<close>.
\<close>

definition distance_key :: "pyval dict \<Rightarrow> error + int" where
  "distance_key x =
     (case map_of x ''distance_m'' of
        None \<Rightarrow> Inl (KeyError ''distance_m'')
      | Some (PInt d) \<Rightarrow> Inr d
      | Some _ \<Rightarrow> Inl (TypeError ''not supported between instances''))"

fun distance_keys :: "pyval dict list \<Rightarrow> error + int list" where
  "distance_keys [] = Inr []"
| "distance_keys (x # xs) =
     (case distance_key x of
        Inl e \<Rightarrow> Inl e
      | Inr d \<Rightarrow> (case distance_keys xs of Inl e \<Rightarrow> Inl e | Inr ds \<Rightarrow> Inr (d # ds)))"

definition sort_records :: "pyval dict list \<Rightarrow> error + pyval dict list" where
  "sort_records records =
     (case distance_keys records of
        Inl e \<Rightarrow> Inl e
      | Inr ds \<Rightarrow> Inr (map snd (sort_key fst (zip ds records))))"

text \<open>\<^verbatim>\<open>records[: max(0, int(top_n))]\<close> after the sort, lines 157 to 158 and 240 to 241.\<close>

definition sort_truncate :: "pyval dict list \<Rightarrow> int \<Rightarrow> error + pyval dict list" where
  "sort_truncate records top_n =
     (case sort_records records of
        Inl e \<Rightarrow> Inl e
      | Inr sorted_records \<Rightarrow> Inr (take (nat (max 0 top_n)) sorted_records))"

section \<open>The searches\<close>

text \<open>
  The query text is formatted from the radius, the latitude and the longitude; the
  embedding keeps these three and which of the three texts it is. Every search takes
  the endpoint and the distance function \<^verbatim>\<open>round(_haversine_m(...))\<close> of the floating
  point arithmetic as its first two arguments.
\<close>

datatype query =
    Veterinary_Query int real real
  | Food_Strict_Query int real real
  | Food_Any_Query int real real

definition DEFAULT_OVERPASS_URL :: string where
  "DEFAULT_OVERPASS_URL = ''https://overpass-api.de/api/interpreter''"

definition DEFAULT_USER_AGENT :: string where
  "DEFAULT_USER_AGENT = ''nearby-places-overpass/1.0 (contact: you@example.com)''"

type_synonym search_result = "query event list \<times> (error + pyval dict list)"

text \<open>\<^verbatim>\<open>data.get("elements", [])\<close>.\<close>

definition response_elements :: "response \<Rightarrow> element list" where
  "response_elements data = (case resp_elements data of None \<Rightarrow> [] | Some els \<Rightarrow> els)"

text \<open>The loop of \<^verbatim>\<open>search_nearby_veterinary\<close>, lines 144 to 155.\<close>

fun veterinary_loop ::
  "distance \<Rightarrow> real \<Rightarrow> real \<Rightarrow> element list \<Rightarrow> pyval dict list
    \<Rightarrow> error + pyval dict list" where
  "veterinary_loop round_haversine_m latitude longitude [] records = Inr records"
| "veterinary_loop round_haversine_m latitude longitude (el # els) records =
     (case extract_center el of
        None \<Rightarrow> veterinary_loop round_haversine_m latitude longitude els records
      | Some (plat, plon) \<Rightarrow>
          (let name = element_name el;
               address = element_address el
           in case round_haversine_m latitude longitude plat plon of
                Inl e \<Rightarrow> Inl e
              | Inr d \<Rightarrow>
                  veterinary_loop round_haversine_m latitude longitude els
                    (records @ [to_output_record name address d])))"

definition search_nearby_veterinary ::
  "(query, response) endpoint \<Rightarrow> distance \<Rightarrow> real \<Rightarrow> real \<Rightarrow> int \<Rightarrow> int \<Rightarrow> string
    \<Rightarrow> string \<Rightarrow> search_result" where
  "search_nearby_veterinary endpoint round_haversine_m latitude longitude radius_m top_n
       overpass_url user_agent =
     (let query = Veterinary_Query radius_m latitude longitude;
          (trace, res) = overpass_post endpoint query overpass_url user_agent 45 6
      in case res of
           Inl e \<Rightarrow> (trace, Inl e)
         | Inr data \<Rightarrow>
             (trace,
              case veterinary_loop round_haversine_m latitude longitude
                     (response_elements data) [] of
                Inl e \<Rightarrow> Inl e
              | Inr records \<Rightarrow> sort_truncate records top_n))"

text \<open>
  The loop of \<^verbatim>\<open>search_nearby_pet_friendly_food\<close>, lines 222 to 238, with the set
  \<^verbatim>\<open>seen\<close> of keys \<^verbatim>\<open>(name or "", address or "")\<close>.
\<close>

definition or_empty :: "string option \<Rightarrow> string" where
  "or_empty v = (case v of None \<Rightarrow> [] | Some s \<Rightarrow> s)"

fun food_loop ::
  "distance \<Rightarrow> real \<Rightarrow> real \<Rightarrow> element list \<Rightarrow> (string \<times> string) set
    \<Rightarrow> pyval dict list \<Rightarrow> error + pyval dict list" where
  "food_loop round_haversine_m latitude longitude [] seen records = Inr records"
| "food_loop round_haversine_m latitude longitude (el # els) seen records =
     (case extract_center el of
        None \<Rightarrow> food_loop round_haversine_m latitude longitude els seen records
      | Some (plat, plon) \<Rightarrow>
          (let name = element_name el;
               address = element_address el
           in case round_haversine_m latitude longitude plat plon of
                Inl e \<Rightarrow> Inl e
              | Inr d \<Rightarrow>
                  (let key = (or_empty name, or_empty address)
                   in if key \<in> seen
                      then food_loop round_haversine_m latitude longitude els seen records
                      else food_loop round_haversine_m latitude longitude els
                             (insert key seen)
                             (records @ [to_output_record name address d]))))"

text \<open>Lines 179 to 214: the strict and the broad query.\<close>

definition food_query :: "bool \<Rightarrow> int \<Rightarrow> real \<Rightarrow> real \<Rightarrow> query" where
  "food_query strict radius_m latitude longitude =
     (if strict then Food_Strict_Query radius_m latitude longitude
      else Food_Any_Query radius_m latitude longitude)"

definition search_nearby_pet_friendly_food ::
  "(query, response) endpoint \<Rightarrow> distance \<Rightarrow> real \<Rightarrow> real \<Rightarrow> int \<Rightarrow> int \<Rightarrow> bool
    \<Rightarrow> string \<Rightarrow> string \<Rightarrow> search_result" where
  "search_nearby_pet_friendly_food endpoint round_haversine_m latitude longitude radius_m
       top_n strict overpass_url user_agent =
     (let query = food_query strict radius_m latitude longitude;
          (trace, res) = overpass_post endpoint query overpass_url user_agent 45 6
      in case res of
           Inl e \<Rightarrow> (trace, Inl e)
         | Inr data \<Rightarrow>
             (trace,
              case food_loop round_haversine_m latitude longitude
                     (response_elements data) {} [] of
                Inl e \<Rightarrow> Inl e
              | Inr records \<Rightarrow> sort_truncate records top_n))"

text \<open>
  The keyword arguments a caller passes through \<^verbatim>\<open>**kwargs\<close>: the keyword parameters
  of the two searches that \<^verbatim>\<open>search_nearby\<close> does not bind itself, and the names
  that no search accepts. Python raises \<^verbatim>\<open>TypeError\<close> at the call for a keyword the
  callee does not have, before the callee runs.
\<close>

record kwargs =
  kw_overpass_url :: "string option"
  kw_user_agent :: "string option"
  kw_strict :: "bool option"
  kw_other :: "string list"

definition no_kwargs :: kwargs where
  "no_kwargs = \<lparr>kw_overpass_url = None, kw_user_agent = None, kw_strict = None, kw_other = []\<rparr>"

definition call_veterinary ::
  "(query, response) endpoint \<Rightarrow> distance \<Rightarrow> real \<Rightarrow> real \<Rightarrow> int \<Rightarrow> int \<Rightarrow> kwargs
    \<Rightarrow> search_result" where
  "call_veterinary endpoint round_haversine_m latitude longitude radius_m top_n kw =
     (if kw_other kw = [] \<and> kw_strict kw = None
      then search_nearby_veterinary endpoint round_haversine_m latitude longitude radius_m
             top_n
             (case kw_overpass_url kw of None \<Rightarrow> DEFAULT_OVERPASS_URL | Some u \<Rightarrow> u)
             (case kw_user_agent kw of None \<Rightarrow> DEFAULT_USER_AGENT | Some a \<Rightarrow> a)
      else ([], Inl (TypeError ''unexpected keyword argument'')))"

definition call_pet_friendly_food ::
  "(query, response) endpoint \<Rightarrow> distance \<Rightarrow> real \<Rightarrow> real \<Rightarrow> int \<Rightarrow> int \<Rightarrow> kwargs
    \<Rightarrow> search_result" where
  "call_pet_friendly_food endpoint round_haversine_m latitude longitude radius_m top_n kw =
     (if kw_other kw = []
      then search_nearby_pet_friendly_food endpoint round_haversine_m latitude longitude
             radius_m top_n
             (case kw_strict kw of None \<Rightarrow> True | Some b \<Rightarrow> b)
             (case kw_overpass_url kw of None \<Rightarrow> DEFAULT_OVERPASS_URL | Some u \<Rightarrow> u)
             (case kw_user_agent kw of None \<Rightarrow> DEFAULT_USER_AGENT | Some a \<Rightarrow> a)
      else ([], Inl (TypeError ''unexpected keyword argument'')))"

text \<open>
  \<^verbatim>\<open>search_nearby\<close>, lines 253 to 258. The mode is \<open>None\<close> for Python's \<^verbatim>\<open>None\<close>;
  \<^verbatim>\<open>mode or ""\<close> turns it into the empty string.
\<close>

text \<open>The message of the \<^verbatim>\<open>ValueError\<close> on line 258; it ends with a single quote.\<close>

definition MODE_ERROR :: string where
  "MODE_ERROR = ''mode must be 'veterinary' or 'pet_friendly_food'' @ [CHR 0x27]"

definition search_nearby ::
  "(query, response) endpoint \<Rightarrow> distance \<Rightarrow> real \<Rightarrow> real \<Rightarrow> int \<Rightarrow> int \<Rightarrow> string option
    \<Rightarrow> kwargs \<Rightarrow> search_result" where
  "search_nearby endpoint round_haversine_m latitude longitude radius_m top_n mode kw =
     (let mode2 = py_lower (py_strip (or_empty mode))
      in if mode2 = ''veterinary''
         then call_veterinary endpoint round_haversine_m latitude longitude radius_m top_n kw
         else if mode2 \<in> set [''pet_friendly_food'', ''pet_food'', ''food'']
         then call_pet_friendly_food endpoint round_haversine_m latitude longitude radius_m
                top_n kw
         else ([], Inl (ValueError MODE_ERROR)))"

text \<open>The adapters of the compatibility layer, lines 268 to 291.\<close>

definition search_nearby_veterinary_legacy ::
  "(query, response) endpoint \<Rightarrow> distance \<Rightarrow> string \<Rightarrow> real \<Rightarrow> real \<Rightarrow> int
    \<Rightarrow> string option \<Rightarrow> int \<Rightarrow> kwargs \<Rightarrow> search_result" where
  "search_nearby_veterinary_legacy endpoint round_haversine_m api_key latitude longitude radius
       language top_n kw =
     call_veterinary endpoint round_haversine_m latitude longitude radius top_n kw"

text \<open>\<^verbatim>\<open>int(radius)\<close> of a float truncates towards zero.\<close>

definition py_int :: "real \<Rightarrow> int" where
  "py_int x = (if 0 \<le> x then \<lfloor>x\<rfloor> else \<lceil>x\<rceil>)"

definition search_nearby_veterinary_v1 ::
  "(query, response) endpoint \<Rightarrow> distance \<Rightarrow> string \<Rightarrow> real \<Rightarrow> real \<Rightarrow> real \<Rightarrow> int
    \<Rightarrow> string option \<Rightarrow> kwargs \<Rightarrow> search_result" where
  "search_nearby_veterinary_v1 endpoint round_haversine_m api_key latitude longitude radius
       max_results field_mask kw =
     call_veterinary endpoint round_haversine_m latitude longitude (py_int radius)
       max_results kw"

section \<open>Auxiliary functions for the proofs\<close>

text \<open>
  What one element contributes to a loop that returns: nothing without a center, else
  its deduplication key and its output record.
\<close>

definition element_key :: "element \<Rightarrow> string \<times> string" where
  "element_key el = (or_empty (element_name el), or_empty (element_address el))"

definition candidate ::
  "distance \<Rightarrow> real \<Rightarrow> real \<Rightarrow> element \<Rightarrow> ((string \<times> string) \<times> pyval dict) option" where
  "candidate round_haversine_m latitude longitude el =
     (case extract_center el of
        None \<Rightarrow> None
      | Some (plat, plon) \<Rightarrow>
          (case round_haversine_m latitude longitude plat plon of
             Inl e \<Rightarrow> None
           | Inr d \<Rightarrow>
               Some (element_key el,
                     to_output_record (element_name el) (element_address el) d)))"

text \<open>Keeping the first entry of every key that is not in \<open>seen\<close>.\<close>

fun keep_first :: "'k set \<Rightarrow> ('k \<times> 'r) list \<Rightarrow> ('k \<times> 'r) list" where
  "keep_first seen [] = []"
| "keep_first seen ((k, r) # xs) =
     (if k \<in> seen then keep_first seen xs else (k, r) # keep_first (insert k seen) xs)"

text \<open>The name and the address of an output record.\<close>

definition name_address :: "pyval dict \<Rightarrow> pyval option \<times> pyval option" where
  "name_address r = (map_of r ''name'', map_of r ''address'')"

section \<open>Example endpoints\<close>

text \<open>
  An endpoint that answers 503 to the first call, times out on the second and answers
  200 with the body 7 from the third call on.
\<close>

definition fail_twice :: "(string, nat) endpoint" where
  "fail_twice req i =
     (if i = 0 then Response 503 None
      else if i = 1 then PostRaises (RequestException ''timeout'')
      else Response 200 (Some 7))"

text \<open>
  A response with three elements, in this order: one without coordinates; a way whose
  center lies \<open>54 / 6371000\<close> degrees north of the origin, which is \<open>0.3 * pi\<close>
  metres away and so at the rounded distance 1; and a node at the origin that carries
  the same tags as the way. The endpoint answers every request with it.
\<close>

definition example_tags :: "string dict" where
  "example_tags = [(''name'', ''A''), (''addr:street'', ''S'')]"

definition example_bare :: element where
  "example_bare = \<lparr>el_lat = None, el_lon = None, el_center = None, el_tags = None\<rparr>"

definition example_lat :: real where
  "example_lat = 54 / 6371000"

definition example_way :: element where
  "example_way = \<lparr>el_lat = None, el_lon = None,
     el_center = Some \<lparr>c_lat = Some example_lat, c_lon = Some 0\<rparr>,
     el_tags = Some example_tags\<rparr>"

definition example_node :: element where
  "example_node = \<lparr>el_lat = Some 0, el_lon = Some 0, el_center = None,
     el_tags = Some example_tags\<rparr>"

definition example_response :: response where
  "example_response = \<lparr>resp_elements = Some [example_bare, example_way, example_node]\<rparr>"

definition example_endpoint :: "(query, response) endpoint" where
  "example_endpoint req i = Response 200 (Some example_response)"

definition example_record :: "int \<Rightarrow> pyval dict" where
  "example_record d = [(''name'', PStr ''A''), (''address'', PStr ''S''), (''rating'', PNone),
     (''distance_m'', PInt d)]"

section \<open>Properties of the transport client\<close>

lemma backoff_trace_0: "backoff_trace req b 0 = []"
  by (simp add: backoff_trace_def)

lemma backoff_trace_Suc:
  "backoff_trace req b (Suc n) = Post req # Sleep b # backoff_trace req (b * 2) n"
proof -
  have "[0..<Suc n] = 0 # map Suc [0..<n]"
    by (simp add: upt_conv_Cons map_Suc_upt del: upt_Suc)
  then show ?thesis
    by (simp add: backoff_trace_def comp_def mult.assoc del: upt_Suc)
qed

lemma attempts_append: "attempts (xs @ ys) = attempts xs + attempts ys"
  by (simp add: attempts_def)

lemma sleeps_append: "sleeps (xs @ ys) = sleeps xs @ sleeps ys"
  by (induction xs rule: sleeps.induct) simp_all

lemma attempts_backoff_trace: "attempts (backoff_trace req b n) = n"
  by (induction n arbitrary: b) (simp_all add: backoff_trace_0 backoff_trace_Suc attempts_def)

lemma sleeps_backoff_trace: "sleeps (backoff_trace req b n) = map (\<lambda>k. b * 2 ^ k) [0..<n]"
proof (induction n arbitrary: b)
  case 0
  show ?case by (simp add: backoff_trace_0)
next
  case (Suc n)
  have "[0..<Suc n] = 0 # map Suc [0..<n]"
    by (simp add: upt_conv_Cons map_Suc_upt del: upt_Suc)
  then show ?case
    by (simp add: backoff_trace_Suc Suc.IH comp_def mult.assoc del: upt_Suc)
qed

text \<open>The loop after \<open>k\<close> failures and a success, started at any call index.\<close>

lemma retry_loop_success:
  assumes "\<forall>j<k. failed (endpoint req (i + j))"
    and "try_body (endpoint req (i + k)) = Returned v"
    and "k < n"
  shows "retry_loop endpoint req n i b le = (backoff_trace req b k @ [Post req], Inr v)"
  using assms
proof (induction k arbitrary: n i b le)
  case 0
  then obtain m where "n = Suc m" by (cases n) auto
  with 0 show ?case by (simp add: backoff_trace_0)
next
  case (Suc k)
  then obtain m where n: "n = Suc m" and km: "k < m" by (cases n) auto
  have f0: "failed (endpoint req i)" using Suc.prems(1) by force
  have rest: "\<forall>j<k. failed (endpoint req (Suc i + j))" using Suc.prems(1) by force
  have ret: "try_body (endpoint req (Suc i + k)) = Returned v" using Suc.prems(2) by simp
  have IH: "\<And>b le. retry_loop endpoint req m (Suc i) b le
      = (backoff_trace req b k @ [Post req], Inr v)"
    using Suc.IH[OF rest ret km] .
  from f0 show ?case
    by (cases "try_body (endpoint req i)") (simp_all add: n IH backoff_trace_Suc)
qed

lemma retry_loop_success_0:
  assumes "\<forall>j<k. failed (endpoint req j)"
    and "try_body (endpoint req k) = Returned v"
    and "k < n"
  shows "retry_loop endpoint req n 0 b le = (backoff_trace req b k @ [Post req], Inr v)"
  using retry_loop_success[of k endpoint req 0 v n b le] assms by simp

text \<open>The loop when every attempt of the budget fails.\<close>

lemma retry_loop_all_fail:
  assumes "\<forall>j<n. failed (endpoint req (i + j))"
  shows "fst (retry_loop endpoint req n i b le) = backoff_trace req b n
       \<and> (\<exists>e. snd (retry_loop endpoint req n i b le) = Inl (RuntimeError e))"
  using assms
proof (induction n arbitrary: i b le)
  case 0
  then show ?case by (simp add: backoff_trace_0)
next
  case (Suc n)
  have f0: "failed (endpoint req i)" using Suc.prems by force
  have rest: "\<forall>j<n. failed (endpoint req (Suc i + j))" using Suc.prems by force
  note IH = Suc.IH[OF rest]
  from f0 show ?case
    by (cases "try_body (endpoint req i)") (simp_all add: IH backoff_trace_Suc split_beta)
qed

lemma overpass_post_exhausted:
  assumes "\<forall>j<nat max_retries. failed (endpoint (post_request query url ua t) j)"
  shows "attempts (fst (overpass_post endpoint query url ua t max_retries)) = nat max_retries
       \<and> (\<exists>e. snd (overpass_post endpoint query url ua t max_retries) = Inl (RuntimeError e))"
  using retry_loop_all_fail[where n="nat max_retries" and endpoint=endpoint
      and req="post_request query url ua t" and i=0 and b="1.25" and le=None] assms
  by (simp add: overpass_post_def attempts_backoff_trace)

text \<open>The loop after \<open>k\<close> failures when the budget is not used up: a call follows.\<close>

lemma retry_loop_prefix:
  assumes "\<forall>j<k. failed (endpoint req (i + j))" and "k < n"
  shows "\<exists>rest. fst (retry_loop endpoint req n i b le) = backoff_trace req b k @ Post req # rest"
  using assms
proof (induction k arbitrary: n i b le)
  case 0
  then obtain m where "n = Suc m" by (cases n) auto
  then show ?case
    by (cases "try_body (endpoint req i)") (simp_all add: backoff_trace_0 split_beta)
next
  case (Suc k)
  then obtain m where n: "n = Suc m" and km: "k < m" by (cases n) auto
  have f0: "failed (endpoint req i)" using Suc.prems(1) by force
  have rest: "\<forall>j<k. failed (endpoint req (Suc i + j))" using Suc.prems(1) by force
  note IH = Suc.IH[OF rest km]
  from f0 show ?case
    by (cases "try_body (endpoint req i)") (simp_all add: n IH backoff_trace_Suc split_beta)
qed

lemma retry_loop_prefix_0:
  assumes "\<forall>j<k. failed (endpoint req j)" and "k < n"
  shows "\<exists>rest. fst (retry_loop endpoint req n 0 b le) = backoff_trace req b k @ Post req # rest"
  using retry_loop_prefix[of k endpoint req 0 n b le] assms by simp

text \<open>
  C1. When every attempt of the budget fails, the client makes exactly the budgeted
  number of attempts and fails with an error that wraps the last failure cause. The
  code keeps the cause in \<^verbatim>\<open>last_err\<close>, which only the \<^verbatim>\<open>except\<close> branch assigns: at an
  endpoint that answers 503 to each of the six attempts, all six are made, the last
  failure is the status 503, and the error raised carries \<^verbatim>\<open>None\<close>.
\<close>

theorem overpass_post_all_503:
  "attempts (fst (overpass_post (\<lambda>req i. Response 503 None) query url ua 45 6)) = 6
   \<and> snd (overpass_post (\<lambda>req i. Response 503 None) query url ua 45 6)
       = Inl (RuntimeError None)
   \<and> try_body (Response 503 None) = Transient_Status 503"
  by (simp add: overpass_post_def transient_status_def attempts_def eval_nat_numeral)

text \<open>
  C2. An attempt fails when the status is one of 429, 502, 503, 504, when
  \<^verbatim>\<open>requests.post\<close> raises, when \<^verbatim>\<open>raise_for_status\<close> raises (any status from 400 to
  599) and when \<^verbatim>\<open>resp.json()\<close> raises. If the attempts 0 to \<open>i\<close> fail and attempt
  \<open>i\<close> is not the last of the budget, the run goes on after the \<open>i + 1\<close> failures
  and their sleeps with another call, whatever the kind of each failure.
\<close>

theorem failed_attempt_is_retried:
  assumes "\<forall>j\<le>i. failed (endpoint (post_request query url ua t) j)"
    and "int i + 1 < max_retries"
  shows "(\<exists>rest. fst (overpass_post endpoint query url ua t max_retries)
            = backoff_trace (post_request query url ua t) 1.25 (Suc i)
              @ Post (post_request query url ua t) # rest)
       \<and> i + 2 \<le> attempts (fst (overpass_post endpoint query url ua t max_retries))
       \<and> (\<forall>e. failed (PostRaises e))
       \<and> (\<forall>s b. failed (Response s b)
            = (transient_status s \<or> (400 \<le> s \<and> s < 600) \<or> b = None))"
proof -
  let ?req = "post_request query url ua t"
  have a: "\<forall>j<Suc i. failed (endpoint ?req j)"
    using assms(1) by (simp add: less_Suc_eq_le)
  have b: "Suc i < nat max_retries" using assms(2) by linarith
  obtain rest where r: "fst (overpass_post endpoint query url ua t max_retries)
      = backoff_trace ?req 1.25 (Suc i) @ Post ?req # rest"
    using retry_loop_prefix_0[where endpoint=endpoint and req="?req", OF a b]
    unfolding overpass_post_def by blast
  have c: "i + 2 \<le> attempts (fst (overpass_post endpoint query url ua t max_retries))"
    unfolding r attempts_append attempts_backoff_trace by (simp add: attempts_def)
  have d: "\<forall>s b. failed (Response s b)
      = (transient_status s \<or> (400 \<le> s \<and> s < 600) \<or> b = None)"
    by (auto split: option.splits)
  have e: "\<forall>e. failed (PostRaises e)" by simp
  show ?thesis
    by (intro conjI exI[of _ rest]) (rule r, rule c, rule e, rule d)
qed

theorem failed_attempt_is_retried_witness:
  "3 \<le> attempts (fst (overpass_post fail_twice ''q'' ''u'' ''a'' 45 6))"
proof -
  have h1: "\<forall>j\<le>1. failed (fail_twice (post_request ''q'' ''u'' ''a'' 45) j)"
    by (simp add: fail_twice_def transient_status_def le_Suc_eq)
  have h2: "int 1 + 1 < 6" by simp
  have "1 + 2 \<le> attempts (fst (overpass_post fail_twice ''q'' ''u'' ''a'' 45 6))"
    using failed_attempt_is_retried[of 1 fail_twice "''q''" "''u''" "''a''" 45 6, OF h1 h2]
    by blast
  then show ?thesis by simp
qed

text \<open>
  C3. If the first \<open>N\<close> attempts fail, attempt \<open>N\<close> succeeds and \<open>N\<close> is below the
  budget, the client returns the parsed response of that attempt after \<open>N + 1\<close>
  attempts, and the sleep after the \<open>k\<close>-th failed attempt (from 0) lasts
  \<open>1.25 * 2 ^ k\<close>: the delay starts at 1.25 and doubles each time, without a cap.
\<close>

theorem transient_failures_then_success:
  assumes "\<forall>j<N. failed (endpoint (post_request query url ua t) j)"
    and "try_body (endpoint (post_request query url ua t) N) = Returned v"
    and "int N < max_retries"
  shows "overpass_post endpoint query url ua t max_retries
           = (backoff_trace (post_request query url ua t) 1.25 N
                @ [Post (post_request query url ua t)], Inr v)
       \<and> attempts (fst (overpass_post endpoint query url ua t max_retries)) = N + 1
       \<and> int (attempts (fst (overpass_post endpoint query url ua t max_retries))) \<le> max_retries
       \<and> sleeps (fst (overpass_post endpoint query url ua t max_retries))
           = map (\<lambda>k. 1.25 * 2 ^ k) [0..<N]"
proof -
  let ?req = "post_request query url ua t"
  have a: "\<forall>j<N. failed (endpoint ?req j)" using assms(1) by simp
  have b: "try_body (endpoint ?req N) = Returned v" using assms(2) by simp
  have c: "N < nat max_retries" using assms(3) by linarith
  have r: "overpass_post endpoint query url ua t max_retries
      = (backoff_trace ?req 1.25 N @ [Post ?req], Inr v)"
    unfolding overpass_post_def
    by (rule retry_loop_success_0[where endpoint=endpoint and req="?req", OF a b c])
  show ?thesis
    unfolding r using assms(3)
    by (simp add: attempts_append attempts_backoff_trace sleeps_append sleeps_backoff_trace)
       (simp add: attempts_def)
qed

theorem transient_failures_then_success_witness:
  "overpass_post fail_twice ''q'' ''u'' ''a'' 45 6
     = ([Post (post_request ''q'' ''u'' ''a'' 45), Sleep 1.25,
         Post (post_request ''q'' ''u'' ''a'' 45), Sleep 2.5,
         Post (post_request ''q'' ''u'' ''a'' 45)], Inr 7)"
  using transient_failures_then_success[of 2 fail_twice "''q''" "''u''" "''a''" 45 7 6]
  by (simp add: fail_twice_def transient_status_def backoff_trace_def less_Suc_eq
       eval_nat_numeral)

section \<open>Properties of the distance\<close>

lemma haversine_m_same: "haversine_m lat lon lat lon = Inr 0"
  by (simp add: haversine_m_def math_sqrt_def math_asin_def radians_def)


text \<open>
  C8. The distance from any point to itself is exactly zero: the call returns, with
  no domain error, the value 0.
\<close>

theorem haversine_m_same_point: "haversine_m lat lon lat lon = Inr 0"
  by (simp add: haversine_m_def math_sqrt_def math_asin_def radians_def)

section \<open>Properties of the loops, the sort and the truncation\<close>

lemma distance_key_to_output_record [simp]:
  "distance_key (to_output_record name address d) = Inr d"
  by (simp add: distance_key_def to_output_record_def)

lemma keys_to_output_record:
  "map fst (to_output_record name address d) = [''name'', ''address'', ''rating'', ''distance_m'']"
  by (simp add: to_output_record_def)

lemma rating_to_output_record:
  "map_of (to_output_record name address d) ''rating'' = Some PNone"
  by (simp add: to_output_record_def)

lemma name_address_to_output_record:
  "name_address (to_output_record name address d) = (Some (opt_str name), Some (opt_str address))"
  by (simp add: to_output_record_def name_address_def)

lemma distance_key_field:
  "distance_key r = Inr d \<Longrightarrow> map_of r ''distance_m'' = Some (PInt d)"
  by (auto simp: distance_key_def split: option.splits pyval.splits)

text \<open>A loop that returns has met no exception and has appended the records in order.\<close>

lemma veterinary_loop_Inr:
  assumes "veterinary_loop f latitude longitude els records = Inr out"
  shows "out = records @ map snd (List.map_filter (candidate f latitude longitude) els)
       \<and> list_all (\<lambda>el. extract_center el = None \<or> candidate f latitude longitude el \<noteq> None) els"
  using assms
proof (induction els arbitrary: records)
  case Nil
  then show ?case by (simp add: List.map_filter_simps)
next
  case (Cons el els)
  show ?case
  proof (cases "extract_center el")
    case None
    with Cons.prems have "veterinary_loop f latitude longitude els records = Inr out" by simp
    from Cons.IH[OF this] None show ?thesis
      by (simp add: List.map_filter_simps candidate_def)
  next
    case (Some c)
    obtain plat plon where c: "c = (plat, plon)" by (cases c)
    from Cons.prems Some c obtain d where d: "f latitude longitude plat plon = Inr d"
      and rest: "veterinary_loop f latitude longitude els
          (records @ [to_output_record (element_name el) (element_address el) d]) = Inr out"
      by (cases "f latitude longitude plat plon") (simp_all add: Let_def)
    from Cons.IH[OF rest] Some c d show ?thesis
      by (simp add: List.map_filter_simps candidate_def)
  qed
qed

lemma food_loop_Inr:
  assumes "food_loop f latitude longitude els seen records = Inr out"
  shows "out = records
           @ map snd (keep_first seen (List.map_filter (candidate f latitude longitude) els))
       \<and> list_all (\<lambda>el. extract_center el = None \<or> candidate f latitude longitude el \<noteq> None) els"
  using assms
proof (induction els arbitrary: seen records)
  case Nil
  then show ?case by (simp add: List.map_filter_simps)
next
  case (Cons el els)
  show ?case
  proof (cases "extract_center el")
    case None
    with Cons.prems have "food_loop f latitude longitude els seen records = Inr out" by simp
    from Cons.IH[OF this] None show ?thesis
      by (simp add: List.map_filter_simps candidate_def)
  next
    case (Some c)
    obtain plat plon where c: "c = (plat, plon)" by (cases c)
    from Cons.prems Some c obtain d where d: "f latitude longitude plat plon = Inr d"
      by (cases "f latitude longitude plat plon") (simp_all add: Let_def)
    show ?thesis
    proof (cases "element_key el \<in> seen")
      case True
      with Cons.prems Some c d have "food_loop f latitude longitude els seen records = Inr out"
        by (simp add: Let_def element_key_def)
      from Cons.IH[OF this] Some c d True show ?thesis
        by (simp add: List.map_filter_simps candidate_def)
    next
      case False
      with Cons.prems Some c d have "food_loop f latitude longitude els
          (insert (element_key el) seen)
          (records @ [to_output_record (element_name el) (element_address el) d]) = Inr out"
        by (simp add: Let_def element_key_def)
      from Cons.IH[OF this] Some c d False show ?thesis
        by (simp add: List.map_filter_simps candidate_def)
    qed
  qed
qed

text \<open>Conversely, a loop returns when the distance of every element with a center does.\<close>

lemma veterinary_loop_returns:
  assumes "list_all (\<lambda>el. extract_center el = None \<or> candidate f latitude longitude el \<noteq> None) els"
  shows "\<exists>out. veterinary_loop f latitude longitude els records = Inr out"
  using assms
proof (induction els arbitrary: records)
  case Nil
  then show ?case by simp
next
  case (Cons el els)
  then show ?case
    by (cases "extract_center el")
       (auto simp: candidate_def Let_def split: sum.splits)
qed

lemma food_loop_returns:
  assumes "list_all (\<lambda>el. extract_center el = None \<or> candidate f latitude longitude el \<noteq> None) els"
  shows "\<exists>out. food_loop f latitude longitude els seen records = Inr out"
  using assms
proof (induction els arbitrary: seen records)
  case Nil
  then show ?case by simp
next
  case (Cons el els)
  then show ?case
    by (cases "extract_center el")
       (auto simp: candidate_def Let_def split: sum.splits)
qed

lemma distance_keys_pairs:
  assumes "list_all (\<lambda>p. distance_key (snd p) = Inr (fst p)) ps"
  shows "distance_keys (map snd ps) = Inr (map fst ps)"
  using assms by (induction ps) auto

lemma distance_keys_zip:
  assumes "distance_keys rs = Inr ds"
  shows "length ds = length rs \<and> list_all (\<lambda>p. distance_key (snd p) = Inr (fst p)) (zip ds rs)"
  using assms
proof (induction rs arbitrary: ds)
  case Nil
  then show ?case by simp
next
  case (Cons r rs)
  then show ?case by (auto split: sum.splits)
qed

lemma distance_keys_fields:
  assumes "distance_keys rs = Inr ds"
  shows "map (\<lambda>r. map_of r ''distance_m'') rs = map (\<lambda>d. Some (PInt d)) ds"
  using assms
proof (induction rs arbitrary: ds)
  case Nil
  then show ?case by simp
next
  case (Cons r rs)
  then show ?case by (auto split: sum.splits dest: distance_key_field)
qed

text \<open>
  The sort returns a permutation whose \<^verbatim>\<open>distance_m\<close> fields are ints in
  non-decreasing order.
\<close>

lemma sort_records_props:
  assumes "sort_records rs = Inr s"
  shows "mset s = mset rs
       \<and> (\<exists>ds. map (\<lambda>r. map_of r ''distance_m'') s = map (\<lambda>d. Some (PInt d)) ds \<and> sorted ds)"
proof -
  from assms obtain ds where ds: "distance_keys rs = Inr ds"
    and s: "s = map snd (sort_key fst (zip ds rs))"
    by (auto simp: sort_records_def split: sum.splits)
  from distance_keys_zip[OF ds] have len: "length ds = length rs"
    and all: "list_all (\<lambda>p. distance_key (snd p) = Inr (fst p)) (zip ds rs)" by auto
  have "list_all (\<lambda>p. distance_key (snd p) = Inr (fst p)) (sort_key fst (zip ds rs))"
    using all by (simp add: list_all_iff)
  then have "distance_keys s = Inr (map fst (sort_key fst (zip ds rs)))"
    unfolding s by (rule distance_keys_pairs)
  then have k: "map (\<lambda>r. map_of r ''distance_m'') s = map (\<lambda>d. Some (PInt d)) (map fst (sort_key fst (zip ds rs)))"
    by (rule distance_keys_fields)
  have "mset s = image_mset snd (mset (zip ds rs))" unfolding s by simp
  also have "\<dots> = mset (map snd (zip ds rs))" by simp
  also have "\<dots> = mset rs" using len by simp
  finally have m: "mset s = mset rs" .
  have "sorted (map fst (sort_key fst (zip ds rs)))" by (rule sorted_sort_key)
  with k m show ?thesis by blast
qed

lemma distance_keys_total:
  assumes "list_all (\<lambda>r. \<exists>d. distance_key r = Inr d) rs"
  shows "\<exists>ds. distance_keys rs = Inr ds"
  using assms by (induction rs) auto

lemma sort_truncate_total:
  assumes "list_all (\<lambda>r. \<exists>d. distance_key r = Inr d) rs"
  shows "\<exists>full ds. mset full = mset rs
     \<and> map (\<lambda>r. map_of r ''distance_m'') full = map (\<lambda>d. Some (PInt d)) ds \<and> sorted ds
     \<and> (\<forall>n. sort_truncate rs n = Inr (take (nat (max 0 n)) full))"
proof -
  from distance_keys_total[OF assms] obtain ks where "distance_keys rs = Inr ks" by blast
  then obtain full where f: "sort_records rs = Inr full"
    by (simp add: sort_records_def)
  from sort_records_props[OF f] obtain ds where
    "mset full = mset rs" "map (\<lambda>r. map_of r ''distance_m'') full = map (\<lambda>d. Some (PInt d)) ds" "sorted ds"
    by blast
  moreover have "\<forall>n. sort_truncate rs n = Inr (take (nat (max 0 n)) full)"
    by (simp add: sort_truncate_def f)
  ultimately show ?thesis by blast
qed

lemma sort_truncate_subset:
  assumes "sort_truncate rs n = Inr out"
  shows "set out \<subseteq> set rs"
proof -
  from assms obtain s where s: "sort_records rs = Inr s" and o: "out = take (nat (max 0 n)) s"
    by (auto simp: sort_truncate_def split: sum.splits)
  from sort_records_props[OF s] have "set s = set rs" by (metis mset_eq_setD)
  then show ?thesis unfolding o using set_take_subset by fastforce
qed

lemma keep_first_fst:
  "fst ` set (keep_first seen xs) = fst ` set xs - seen"
  by (induction seen xs rule: keep_first.induct) auto

lemma keep_first_distinct:
  "distinct (map fst (keep_first seen xs))"
  by (induction seen xs rule: keep_first.induct) (auto simp: keep_first_fst)

lemma keep_first_subset: "set (keep_first seen xs) \<subseteq> set xs"
  by (induction seen xs rule: keep_first.induct) auto

lemma keep_first_length: "length (keep_first seen xs) \<le> length xs"
  by (induction seen xs rule: keep_first.induct) (auto simp: le_SucI)

lemma keep_first_is_first:
  assumes "(k, r) \<in> set (keep_first seen xs)"
  shows "\<exists>pre post. xs = pre @ (k, r) # post \<and> k \<notin> fst ` set pre"
  using assms
proof (induction seen xs rule: keep_first.induct)
  case (1 seen)
  then show ?case by simp
next
  case (2 seen k' r' xs)
  show ?case
  proof (cases "k' \<in> seen")
    case True
    with 2 have "(k, r) \<in> set (keep_first seen xs)" by simp
    with 2 True obtain pre post where p: "xs = pre @ (k, r) # post" "k \<notin> fst ` set pre"
      by blast
    have "k \<notin> seen"
      using \<open>(k, r) \<in> set (keep_first seen xs)\<close> keep_first_fst[of seen xs] by force
    with True have "k \<noteq> k'" by auto
    with p have "(k', r') # xs = ((k', r') # pre) @ (k, r) # post \<and> k \<notin> fst ` set ((k', r') # pre)"
      by auto
    then show ?thesis by blast
  next
    case False
    show ?thesis
    proof (cases "(k, r) = (k', r')")
      case True
      then have "(k', r') # xs = [] @ (k, r) # xs \<and> k \<notin> fst ` set []" by simp
      then show ?thesis by blast
    next
      case neq: False
      from "2.prems" False neq have m: "(k, r) \<in> set (keep_first (insert k' seen) xs)"
        by auto
      with 2 False obtain pre post where p: "xs = pre @ (k, r) # post" "k \<notin> fst ` set pre"
        by blast
      have "k \<noteq> k'" using m keep_first_fst[of "insert k' seen" xs] by force
      with p have "(k', r') # xs = ((k', r') # pre) @ (k, r) # post
          \<and> k \<notin> fst ` set ((k', r') # pre)"
        by auto
      then show ?thesis by blast
    qed
  qed
qed

lemma map_filter_split:
  assumes "List.map_filter f xs = pre' @ y # post'"
  shows "\<exists>pre x post. xs = pre @ x # post \<and> f x = Some y \<and> List.map_filter f pre = pre'"
  using assms
proof (induction xs arbitrary: pre')
  case Nil
  then show ?case by (simp add: List.map_filter_simps)
next
  case (Cons x xs)
  show ?case
  proof (cases "f x")
    case None
    with Cons.prems have "List.map_filter f xs = pre' @ y # post'"
      by (simp add: List.map_filter_simps)
    from Cons.IH[OF this] obtain pre z post where
      p: "xs = pre @ z # post" "f z = Some y" "List.map_filter f pre = pre'" by blast
    with None have "x # xs = (x # pre) @ z # post \<and> f z = Some y
        \<and> List.map_filter f (x # pre) = pre'"
      by (simp add: List.map_filter_simps)
    then show ?thesis by blast
  next
    case (Some v)
    with Cons.prems have e: "v # List.map_filter f xs = pre' @ y # post'"
      by (simp add: List.map_filter_simps)
    show ?thesis
    proof (cases pre')
      case Nil
      with e have "v = y" by simp
      with Some have "x # xs = [] @ x # xs \<and> f x = Some y \<and> List.map_filter f [] = pre'"
        by (simp add: Nil List.map_filter_simps)
      then show ?thesis by blast
    next
      case (Cons w ws)
      with e have "List.map_filter f xs = ws @ y # post'" and w: "w = v" by simp_all
      from Cons.IH[OF this(1)] obtain pre z post where
        p: "xs = pre @ z # post" "f z = Some y" "List.map_filter f pre = ws" by blast
      with Some w Cons have "x # xs = (x # pre) @ z # post \<and> f z = Some y
          \<and> List.map_filter f (x # pre) = pre'"
        by (simp add: List.map_filter_simps)
      then show ?thesis by blast
    qed
  qed
qed

lemma set_map_filter: "set (List.map_filter f xs) = {y. \<exists>x\<in>set xs. f x = Some y}"
  by (induction xs) (auto simp: List.map_filter_simps split: option.splits)

lemma length_map_filter: "length (List.map_filter f xs) \<le> length xs"
  by (induction xs) (auto simp: List.map_filter_simps split: option.splits)

lemma or_none_nonempty: "or_none s \<noteq> Some []"
  by (simp add: or_none_def)

lemma truthy_nonempty: "truthy v \<noteq> Some []"
  by (cases v) (simp_all add: truthy_def or_none_def)

lemma build_address_nonempty: "build_address tags \<noteq> Some []"
  by (simp add: build_address_def or_none_def Let_def split: option.splits)

lemma or_empty_eq:
  assumes "a \<noteq> Some []" "b \<noteq> Some []" "or_empty a = or_empty b"
  shows "a = b"
  using assms by (cases a; cases b) (auto simp: or_empty_def)

text \<open>Two elements have the same key exactly when they have the same name and address.\<close>

lemma element_key_eq:
  "element_key e = element_key el
     \<longleftrightarrow> (element_name e, element_address e) = (element_name el, element_address el)"
proof -
  have n: "element_name e \<noteq> Some []" "element_name el \<noteq> Some []"
    by (simp_all add: element_name_def truthy_nonempty)
  have a: "element_address e \<noteq> Some []" "element_address el \<noteq> Some []"
    by (simp_all add: element_address_def build_address_nonempty)
  show ?thesis
    using or_empty_eq[OF n] or_empty_eq[OF a] by (auto simp: element_key_def)
qed

lemma opt_str_inj: "opt_str a = opt_str b \<Longrightarrow> a = b"
  by (cases a; cases b) (simp_all add: opt_str_def)

lemma candidate_Some:
  assumes "candidate f latitude longitude el = Some (k, r)"
  shows "\<exists>plat plon d. extract_center el = Some (plat, plon)
     \<and> f latitude longitude plat plon = Inr d
     \<and> k = element_key el
     \<and> r = to_output_record (element_name el) (element_address el) d"
  using assms by (auto simp: candidate_def split: option.splits sum.splits)

lemma candidate_built:
  assumes "candidate f latitude longitude el = Some (k, r)"
  shows "\<exists>name address d. r = to_output_record name address d"
  using candidate_Some[OF assms] by blast

lemma candidates_built:
  assumes "r \<in> snd ` set (List.map_filter (candidate f latitude longitude) els)"
  shows "\<exists>name address d. r = to_output_record name address d"
proof -
  from assms obtain k el where "candidate f latitude longitude el = Some (k, r)"
    by (auto simp: set_map_filter)
  then show ?thesis by (rule candidate_built)
qed

lemma candidates_name_address:
  assumes "p \<in> set (List.map_filter (candidate f latitude longitude) els)"
    and "q \<in> set (List.map_filter (candidate f latitude longitude) els)"
    and "name_address (snd p) = name_address (snd q)"
  shows "fst p = fst q"
proof -
  from assms(1) obtain e where e: "candidate f latitude longitude e = Some p"
    by (auto simp: set_map_filter)
  from assms(2) obtain g where g: "candidate f latitude longitude g = Some q"
    by (auto simp: set_map_filter)
  from e g assms(3) show ?thesis
    by (cases p; cases q)
       (auto dest!: candidate_Some opt_str_inj
          simp: name_address_to_output_record element_key_def)
qed

lemma candidates_have_distance:
  "list_all (\<lambda>r. \<exists>d. distance_key r = Inr d)
     (map snd (List.map_filter (candidate f latitude longitude) els))"
  by (auto simp: list_all_iff set_map_filter dest!: candidate_Some)

lemma kept_have_distance:
  "list_all (\<lambda>r. \<exists>d. distance_key r = Inr d)
     (map snd (keep_first seen (List.map_filter (candidate f latitude longitude) els)))"
  using keep_first_subset[of seen "List.map_filter (candidate f latitude longitude) els"]
  by (auto simp: list_all_iff set_map_filter dest!: candidate_Some)

lemma kept_distinct_name_address:
  "distinct (map name_address
     (map snd (keep_first seen (List.map_filter (candidate f latitude longitude) els))))"
proof -
  let ?cands = "List.map_filter (candidate f latitude longitude) els"
  let ?kept = "keep_first seen ?cands"
  have d: "distinct (map fst ?kept)" by (rule keep_first_distinct)
  then have dk: "distinct ?kept" and inj: "inj_on fst (set ?kept)"
    by (simp_all add: distinct_map)
  have "inj_on (name_address \<circ> snd) (set ?kept)"
  proof (rule inj_onI)
    fix p q
    assume p: "p \<in> set ?kept" and q: "q \<in> set ?kept"
      and e: "(name_address \<circ> snd) p = (name_address \<circ> snd) q"
    from p q keep_first_subset[of seen ?cands]
    have "p \<in> set ?cands" "q \<in> set ?cands" by auto
    from candidates_name_address[OF this] e have "fst p = fst q" by simp
    with inj p q show "p = q" by (simp add: inj_on_def)
  qed
  with dk have "distinct (map (name_address \<circ> snd) ?kept)" by (simp add: distinct_map)
  then show ?thesis by simp
qed

text \<open>
  A record that the food loop keeps comes from an element with a center such that no
  earlier element with a center has the same name and address.
\<close>

lemma kept_is_first:
  assumes all: "list_all (\<lambda>el. extract_center el = None
        \<or> candidate f latitude longitude el \<noteq> None) els"
    and r: "r \<in> set (map snd (keep_first {}
        (List.map_filter (candidate f latitude longitude) els)))"
  shows "\<exists>pre el post plat plon d.
      els = pre @ el # post
    \<and> extract_center el = Some (plat, plon)
    \<and> f latitude longitude plat plon = Inr d
    \<and> r = to_output_record (element_name el) (element_address el) d
    \<and> (\<forall>e\<in>set pre. extract_center e \<noteq> None \<longrightarrow>
          (element_name e, element_address e) \<noteq> (element_name el, element_address el))"
proof -
  let ?f = "candidate f latitude longitude"
  from r obtain k where "(k, r) \<in> set (keep_first {} (List.map_filter ?f els))" by auto
  from keep_first_is_first[OF this] obtain pre2 post2 where
    c: "List.map_filter ?f els = pre2 @ (k, r) # post2" and n: "k \<notin> fst ` set pre2" by blast
  from map_filter_split[OF c] obtain pre el post where
    s: "els = pre @ el # post" "?f el = Some (k, r)" "List.map_filter ?f pre = pre2" by blast
  from candidate_Some[OF s(2)] obtain plat plon d where
    el: "extract_center el = Some (plat, plon)" "f latitude longitude plat plon = Inr d"
      "k = element_key el"
      "r = to_output_record (element_name el) (element_address el) d" by blast
  have "(element_name e, element_address e) \<noteq> (element_name el, element_address el)"
    if e: "e \<in> set pre" "extract_center e \<noteq> None" for e
  proof -
    from e(1) s(1) have "e \<in> set els" by simp
    with all e(2) have "?f e \<noteq> None" by (auto simp: list_all_iff)
    then obtain k2 r2 where k2: "?f e = Some (k2, r2)" by (cases "?f e") auto
    with e(1) have "(k2, r2) \<in> set pre2" unfolding s(3)[symmetric]
      by (auto simp: set_map_filter)
    with n have "k2 \<noteq> k" by force
    moreover from candidate_Some[OF k2] have "k2 = element_key e" by blast
    ultimately have "element_key e \<noteq> element_key el" using el(3) by simp
    then show ?thesis by (simp add: element_key_eq)
  qed
  with s(1) el(1,2,4) show ?thesis by blast
qed

text \<open>Every element with a center has its name and address in a record that is kept.\<close>

lemma kept_covers:
  assumes all: "list_all (\<lambda>el. extract_center el = None
        \<or> candidate f latitude longitude el \<noteq> None) els"
    and "el \<in> set els" "extract_center el \<noteq> None"
  shows "\<exists>r\<in>set (map snd (keep_first {} (List.map_filter (candidate f latitude longitude) els))).
     name_address r = (Some (opt_str (element_name el)), Some (opt_str (element_address el)))"
proof -
  let ?f = "candidate f latitude longitude"
  from all assms(2,3) have "?f el \<noteq> None" by (auto simp: list_all_iff)
  then obtain k r0 where k: "?f el = Some (k, r0)" by (cases "?f el") auto
  from candidate_Some[OF k] have ke: "k = element_key el" by blast
  from k assms(2) have "k \<in> fst ` set (List.map_filter ?f els)"
    by (force simp: set_map_filter)
  then have "k \<in> fst ` set (keep_first {} (List.map_filter ?f els))"
    by (simp add: keep_first_fst)
  then obtain r where r: "(k, r) \<in> set (keep_first {} (List.map_filter ?f els))" by force
  with keep_first_subset[of "{}" "List.map_filter ?f els"]
  have "(k, r) \<in> set (List.map_filter ?f els)" by auto
  then obtain e where e: "?f e = Some (k, r)" by (auto simp: set_map_filter)
  from candidate_Some[OF e] obtain d where
    e2: "k = element_key e"
      "r = to_output_record (element_name e) (element_address e) d" by blast
  from e2(1) ke have "element_key e = element_key el" by simp
  then have "element_name e = element_name el" "element_address e = element_address el"
    by (simp_all add: element_key_eq)
  with e2(2) have "name_address r
      = (Some (opt_str (element_name el)), Some (opt_str (element_address el)))"
    by (simp add: name_address_to_output_record)
  with r show ?thesis by force
qed

text \<open>What a search that returns has gone through.\<close>

lemma search_nearby_veterinary_Inr:
  assumes "search_nearby_veterinary endpoint f latitude longitude radius_m top_n url ua
      = (trace, Inr out)"
  shows "\<exists>data records.
      overpass_post endpoint (Veterinary_Query radius_m latitude longitude) url ua 45 6
        = (trace, Inr data)
    \<and> veterinary_loop f latitude longitude (response_elements data) [] = Inr records
    \<and> sort_truncate records top_n = Inr out"
  using assms
  by (cases "overpass_post endpoint (Veterinary_Query radius_m latitude longitude) url ua 45 6")
     (auto simp: search_nearby_veterinary_def split: sum.splits)

lemma search_nearby_veterinary_eq:
  assumes "overpass_post endpoint (Veterinary_Query radius_m latitude longitude) url ua 45 6
      = (trace, Inr data)"
    and "veterinary_loop f latitude longitude (response_elements data) [] = Inr records"
  shows "search_nearby_veterinary endpoint f latitude longitude radius_m top_n url ua
      = (trace, sort_truncate records top_n)"
  using assms by (simp add: search_nearby_veterinary_def)

lemma search_nearby_pet_friendly_food_Inr:
  assumes "search_nearby_pet_friendly_food endpoint f latitude longitude radius_m top_n strict
      url ua = (trace, Inr out)"
  shows "\<exists>data records.
      overpass_post endpoint (food_query strict radius_m latitude longitude) url ua 45 6
        = (trace, Inr data)
    \<and> food_loop f latitude longitude (response_elements data) {} [] = Inr records
    \<and> sort_truncate records top_n = Inr out"
  using assms
  by (cases "overpass_post endpoint (food_query strict radius_m latitude longitude) url ua 45 6")
     (auto simp: search_nearby_pet_friendly_food_def split: sum.splits)

lemma search_nearby_pet_friendly_food_eq:
  assumes "overpass_post endpoint (food_query strict radius_m latitude longitude) url ua 45 6
      = (trace, Inr data)"
    and "food_loop f latitude longitude (response_elements data) {} [] = Inr records"
  shows "search_nearby_pet_friendly_food endpoint f latitude longitude radius_m top_n strict
      url ua = (trace, sort_truncate records top_n)"
  using assms by (simp add: search_nearby_pet_friendly_food_def)

lemma take_fields:
  assumes "map (\<lambda>r. map_of r ''distance_m'') full = map (\<lambda>d. Some (PInt d)) ds" "sorted ds"
  shows "\<exists>ds2. map (\<lambda>r. map_of r ''distance_m'') (take n full) = map (\<lambda>d. Some (PInt d)) ds2
     \<and> sorted ds2"
proof -
  have "map (\<lambda>r. map_of r ''distance_m'') (take n full) = map (\<lambda>d. Some (PInt d)) (take n ds)"
    using assms(1) by (simp add: take_map[symmetric])
  moreover have "sorted (take n ds)" using assms(2) by (rule sorted_wrt_take)
  ultimately show ?thesis by blast
qed

text \<open>The part of a search after the loop: the sort and the truncation.\<close>

lemma sorted_then_truncated:
  assumes "list_all (\<lambda>r. \<exists>d. distance_key r = Inr d) records"
    and "sort_truncate records top_n = Inr out"
  shows "\<exists>full ds. mset full = mset records
     \<and> map (\<lambda>r. map_of r ''distance_m'') full = map (\<lambda>d. Some (PInt d)) ds \<and> sorted ds
     \<and> out = take (nat (max 0 top_n)) full
     \<and> (\<exists>ds2. map (\<lambda>r. map_of r ''distance_m'') out = map (\<lambda>d. Some (PInt d)) ds2
           \<and> sorted ds2)
     \<and> (\<forall>n. sort_truncate records n = Inr (take (nat (max 0 n)) full))"
proof -
  from sort_truncate_total[OF assms(1)] obtain full ds where
    f: "mset full = mset records"
      "map (\<lambda>r. map_of r ''distance_m'') full = map (\<lambda>d. Some (PInt d)) ds" "sorted ds"
      "\<forall>n. sort_truncate records n = Inr (take (nat (max 0 n)) full)"
    by blast
  from f(4) assms(2) have o: "out = take (nat (max 0 top_n)) full" by simp
  from take_fields[OF f(2,3)] have
    "\<exists>ds2. map (\<lambda>r. map_of r ''distance_m'') out = map (\<lambda>d. Some (PInt d)) ds2 \<and> sorted ds2"
    unfolding o .
  with f o show ?thesis by blast
qed

lemma veterinary_loop_distance:
  assumes "veterinary_loop f latitude longitude els [] = Inr records"
  shows "list_all (\<lambda>r. \<exists>d. distance_key r = Inr d) records"
  using veterinary_loop_Inr[OF assms] candidates_have_distance[of f latitude longitude els]
  by simp

lemma food_loop_distance:
  assumes "food_loop f latitude longitude els {} [] = Inr records"
  shows "list_all (\<lambda>r. \<exists>d. distance_key r = Inr d) records"
  using food_loop_Inr[OF assms] kept_have_distance[of "{}" f latitude longitude els]
  by simp

text \<open>A search returns when the transport client and every distance computed do.\<close>

lemma search_nearby_veterinary_returns:
  assumes "overpass_post endpoint (Veterinary_Query radius_m latitude longitude) url ua 45 6
      = (trace, Inr data)"
    and "list_all (\<lambda>el. extract_center el = None \<or> candidate f latitude longitude el \<noteq> None)
      (response_elements data)"
  shows "\<exists>out. search_nearby_veterinary endpoint f latitude longitude radius_m top_n url ua
      = (trace, Inr out)"
proof -
  from veterinary_loop_returns[OF assms(2)] obtain records where
    l: "veterinary_loop f latitude longitude (response_elements data) [] = Inr records"
    by blast
  from sort_truncate_total[OF veterinary_loop_distance[OF l]] obtain full where
    "sort_truncate records top_n = Inr (take (nat (max 0 top_n)) full)" by blast
  then show ?thesis by (simp add: search_nearby_veterinary_eq[OF assms(1) l])
qed

lemma search_nearby_pet_friendly_food_returns:
  assumes "overpass_post endpoint (food_query strict radius_m latitude longitude) url ua 45 6
      = (trace, Inr data)"
    and "list_all (\<lambda>el. extract_center el = None \<or> candidate f latitude longitude el \<noteq> None)
      (response_elements data)"
  shows "\<exists>out. search_nearby_pet_friendly_food endpoint f latitude longitude radius_m top_n
      strict url ua = (trace, Inr out)"
proof -
  from food_loop_returns[OF assms(2)] obtain records where
    l: "food_loop f latitude longitude (response_elements data) {} [] = Inr records"
    by blast
  from sort_truncate_total[OF food_loop_distance[OF l]] obtain full where
    "sort_truncate records top_n = Inr (take (nat (max 0 top_n)) full)" by blast
  then show ?thesis by (simp add: search_nearby_pet_friendly_food_eq[OF assms(1) l])
qed

section \<open>The example run\<close>

text \<open>
  The distances of the example in exact arithmetic. At these points the floating point
  computation gives the same ints: the distances are 0 and about 0.94, far from a tie
  of the rounding.
\<close>

lemma py_round_nearest:
  assumes "\<bar>x - of_int n\<bar> < 1 / 2"
  shows "py_round x = n"
proof -
  from assms have b: "- (1 / 2) < x - of_int n" "x - of_int n < 1 / 2"
    unfolding abs_less_iff by linarith+
  show ?thesis
  proof (cases "of_int n \<le> x")
    case True
    with b have f: "\<lfloor>x\<rfloor> = n" by (intro floor_unique) linarith+
    from b(2) show ?thesis by (simp add: py_round_def Let_def f)
  next
    case False
    have e: "real_of_int (n - 1) = of_int n - 1" by simp
    have "of_int (n - 1) \<le> x" "x < of_int (n - 1) + 1"
      unfolding e using False b by linarith+
    then have f: "\<lfloor>x\<rfloor> = n - 1" by (rule floor_unique)
    from b(1) have "\<not> x - of_int (n - 1) < 1 / 2" "1 / 2 < x - of_int (n - 1)"
      unfolding e by linarith+
    then show ?thesis by (simp add: py_round_def Let_def f)
  qed
qed

lemma haversine_m_north:
  assumes "0 \<le> radians lat" "radians lat \<le> pi"
  shows "haversine_m 0 0 lat 0 = Inr (6371000 * radians lat)"
proof -
  let ?x = "radians lat / 2"
  have s: "0 \<le> sin ?x" using assms by (intro sin_ge_zero) simp_all
  have q: "\<bar>sin ?x\<bar> = sin ?x" using s by simp
  have a: "arcsin (sin ?x) = ?x" using assms by (intro arcsin_sin) simp_all
  have r0: "radians 0 = 0" by (simp add: radians_def)
  have le: "\<not> 1 < sin ?x" "\<not> sin ?x < - 1"
    using sin_le_one[of ?x] s by (simp_all add: not_less)
  show ?thesis
    by (simp add: haversine_m_def Let_def r0 math_sqrt_def math_asin_def q a le)
qed

lemma exact_distance_same: "exact_distance lat lon lat lon = Inr 0"
  by (simp add: exact_distance_def haversine_m_same py_round_def)

lemma exact_distance_north: "exact_distance 0 0 (54 / 6371000) 0 = Inr 1"
proof -
  have r: "radians (54 / 6371000) = 3 * pi / 63710000" by (simp add: radians_def)
  have r1: "0 \<le> radians (54 / 6371000)" "radians (54 / 6371000) \<le> pi"
    unfolding r using pi_ge_zero by simp_all
  have h: "haversine_m 0 0 (54 / 6371000) 0 = Inr (6371000 * radians (54 / 6371000))"
    using r1 by (rule haversine_m_north)
  have v: "6371000 * radians (54 / 6371000) = 3 * pi / 10" unfolding r by simp
  have "3 * pi / 10 - 1 < 1 / 2" "- (3 * pi / 10 - 1) < 1 / 2"
    using pi_ge_two pi_less_4 by linarith+
  then have "\<bar>3 * pi / 10 - of_int 1\<bar> < 1 / 2"
    unfolding abs_less_iff by simp
  then have p: "py_round (3 * pi / 10) = 1" by (rule py_round_nearest)
  have "exact_distance 0 0 (54 / 6371000) 0 = Inr (py_round (6371000 * radians (54 / 6371000)))"
    by (simp only: exact_distance_def h sum.case)
  also have "\<dots> = Inr (py_round (3 * pi / 10))" by (simp only: v)
  also have "\<dots> = Inr 1" by (simp only: p)
  finally show ?thesis .
qed

lemma exact_distance_way: "exact_distance 0 0 example_lat 0 = Inr 1"
  unfolding example_lat_def by (rule exact_distance_north)

lemma py_strip_S: "py_strip ''S'' = ''S''"
  by (simp add: py_strip_def py_isspace_def)

lemma example_address: "build_address example_tags = Some ''S''"
  by (simp add: build_address_def example_tags_def truthy_def or_none_def
      List.map_filter_simps py_strip_S)

lemma example_post:
  "overpass_post example_endpoint query url ua 45 6
     = ([Post (post_request query url ua 45)], Inr example_response)"
  by (simp add: overpass_post_def example_endpoint_def transient_status_def eval_nat_numeral)

lemma example_extract:
  "extract_center example_bare = None"
  "extract_center example_way = Some (example_lat, 0)"
  "extract_center example_node = Some (0, 0)"
  by (simp_all add: extract_center_def example_bare_def example_node_def example_way_def)

lemma example_names:
  "element_name example_node = Some ''A''" "element_name example_way = Some ''A''"
  "element_address example_node = Some ''S''" "element_address example_way = Some ''S''"
  by (simp_all add: element_name_def element_address_def element_tags_def example_node_def
      example_way_def example_address)
     (simp_all add: example_tags_def truthy_def or_none_def)

lemma example_to_output_record:
  "to_output_record (Some ''A'') (Some ''S'') d = example_record d"
  by (simp add: to_output_record_def example_record_def opt_str_def)

lemma example_veterinary_loop:
  "veterinary_loop exact_distance 0 0 (response_elements example_response) []
     = Inr [example_record 1, example_record 0]"
  by (simp add: response_elements_def example_response_def example_extract example_names
      exact_distance_same exact_distance_way example_to_output_record)

lemma example_food_loop:
  "food_loop exact_distance 0 0 (response_elements example_response) {} []
     = Inr [example_record 1]"
  by (simp add: response_elements_def example_response_def example_extract example_names
      exact_distance_same exact_distance_way example_to_output_record or_empty_def)

lemma example_distance_key: "distance_key (example_record d) = Inr d"
  by (simp add: distance_key_def example_record_def)

lemma example_sort_truncate:
  "sort_truncate [example_record 1, example_record 0] 20 = Inr [example_record 0, example_record 1]"
  "sort_truncate [example_record 1, example_record 0] 1 = Inr [example_record 0]"
  "sort_truncate [example_record 1] 20 = Inr [example_record 1]"
  by (simp_all add: sort_truncate_def sort_records_def example_distance_key)

lemma example_veterinary:
  "search_nearby_veterinary example_endpoint exact_distance 0 0 1500 20 url ua
     = ([Post (post_request (Veterinary_Query 1500 0 0) url ua 45)],
        Inr [example_record 0, example_record 1])"
  "search_nearby_veterinary example_endpoint exact_distance 0 0 1500 1 url ua
     = ([Post (post_request (Veterinary_Query 1500 0 0) url ua 45)], Inr [example_record 0])"
  by (simp_all add: search_nearby_veterinary_def example_post example_veterinary_loop
      example_sort_truncate)

lemma example_food:
  "search_nearby_pet_friendly_food example_endpoint exact_distance 0 0 1500 20 strict url ua
     = ([Post (post_request (food_query strict 1500 0 0) url ua 45)], Inr [example_record 1])"
  by (simp add: search_nearby_pet_friendly_food_def example_post example_food_loop
      example_sort_truncate)

section \<open>Properties of the searches\<close>

text \<open>
  C4. In the food search, for either value of \<open>strict\<close> and for every distance
  function, whenever the search returns a list: no two output records share a name and
  address pair; every output record is built from an element with a center, with the
  distance computed for this element, such that no earlier element with a center has
  the same name and address, so the first occurrence is the one kept and the later
  ones are dropped; and when \<open>top_n\<close> reaches the number of elements, so that the
  truncation drops nothing, every element with a center has its pair in exactly one
  output record.
\<close>

theorem food_search_deduplicates:
  assumes "search_nearby_pet_friendly_food endpoint f latitude longitude radius_m top_n strict
      url ua = (trace, Inr out)"
  shows "\<exists>data.
      overpass_post endpoint (food_query strict radius_m latitude longitude) url ua 45 6
        = (trace, Inr data)
    \<and> distinct (map name_address out)
    \<and> (\<forall>r\<in>set out. \<exists>pre el post plat plon d.
          response_elements data = pre @ el # post
        \<and> extract_center el = Some (plat, plon)
        \<and> f latitude longitude plat plon = Inr d
        \<and> r = to_output_record (element_name el) (element_address el) d
        \<and> (\<forall>e\<in>set pre. extract_center e \<noteq> None \<longrightarrow>
              (element_name e, element_address e) \<noteq> (element_name el, element_address el)))
    \<and> (int (length (response_elements data)) \<le> top_n \<longrightarrow>
         (\<forall>el\<in>set (response_elements data). extract_center el \<noteq> None \<longrightarrow>
            (\<exists>r\<in>set out. name_address r
                = (Some (opt_str (element_name el)), Some (opt_str (element_address el))))))"
proof -
  from search_nearby_pet_friendly_food_Inr[OF assms] obtain data records where
    h: "overpass_post endpoint (food_query strict radius_m latitude longitude) url ua 45 6
          = (trace, Inr data)"
    and l: "food_loop f latitude longitude (response_elements data) {} [] = Inr records"
    and t: "sort_truncate records top_n = Inr out" by blast
  let ?els = "response_elements data"
  let ?cands = "List.map_filter (candidate f latitude longitude) ?els"
  from food_loop_Inr[OF l] have rec: "records = map snd (keep_first {} ?cands)"
    and all: "list_all (\<lambda>el. extract_center el = None
        \<or> candidate f latitude longitude el \<noteq> None) ?els" by simp_all
  from sorted_then_truncated[OF food_loop_distance[OF l] t] obtain full where
    f: "mset full = mset records" "out = take (nat (max 0 top_n)) full" by blast
  have setf: "set full = set records" using f(1) by (rule mset_eq_setD)
  have "mset (map name_address full) = mset (map name_address records)"
    using f(1) by (metis mset_map)
  then have "distinct (map name_address full)"
    using kept_distinct_name_address[of "{}" f latitude longitude ?els] unfolding rec
    by (metis mset_eq_imp_distinct_iff)
  then have a: "distinct (map name_address out)"
    unfolding f(2) take_map[symmetric] by (rule distinct_take)
  have sub: "set out \<subseteq> set records"
    unfolding f(2) setf[symmetric] by (rule set_take_subset)
  have b: "\<forall>r\<in>set out. \<exists>pre el post plat plon d.
          ?els = pre @ el # post
        \<and> extract_center el = Some (plat, plon)
        \<and> f latitude longitude plat plon = Inr d
        \<and> r = to_output_record (element_name el) (element_address el) d
        \<and> (\<forall>e\<in>set pre. extract_center e \<noteq> None \<longrightarrow>
              (element_name e, element_address e) \<noteq> (element_name el, element_address el))"
    using sub kept_is_first[OF all] unfolding rec by blast
  have c: "\<forall>el\<in>set ?els. extract_center el \<noteq> None \<longrightarrow>
            (\<exists>r\<in>set out. name_address r
                = (Some (opt_str (element_name el)), Some (opt_str (element_address el))))"
    if big: "int (length ?els) \<le> top_n"
  proof -
    have "length full = length records" using f(1) by (rule mset_eq_length)
    also have "\<dots> \<le> length ?cands" unfolding rec by (simp add: keep_first_length)
    also have "\<dots> \<le> length ?els" by (rule length_map_filter)
    finally have "length full \<le> nat (max 0 top_n)" using big by linarith
    then have "out = full" by (simp add: f(2))
    then have "set out = set (map snd (keep_first {} ?cands))" using setf rec by simp
    then show ?thesis using kept_covers[OF all] by blast
  qed
  from h a b c show ?thesis by blast
qed

theorem food_search_deduplicates_witness:
  "search_nearby_pet_friendly_food example_endpoint exact_distance 0 0 1500 20 True ''u'' ''a''
     = ([Post (post_request (food_query True 1500 0 0) ''u'' ''a'' 45)], Inr [example_record 1])
   \<and> veterinary_loop exact_distance 0 0 (response_elements example_response) []
     = Inr [example_record 1, example_record 0]
   \<and> distinct (map name_address [example_record 1])
   \<and> (\<exists>pre el post plat plon.
          response_elements example_response = pre @ el # post
        \<and> extract_center el = Some (plat, plon)
        \<and> exact_distance 0 0 plat plon = Inr 1
        \<and> example_record 1 = to_output_record (element_name el) (element_address el) 1)"
proof -
  let ?t = "[Post (post_request (food_query True 1500 0 0) ''u'' ''a'' 45)]"
  have h: "search_nearby_pet_friendly_food example_endpoint exact_distance 0 0 1500 20 True
      ''u'' ''a'' = (?t, Inr [example_record 1])"
    by (rule example_food)
  from food_search_deduplicates[OF h] obtain data where
    d: "overpass_post example_endpoint (food_query True 1500 0 0) ''u'' ''a'' 45 6
        = (?t, Inr data)"
    and a: "distinct (map name_address [example_record 1])"
    and b: "\<forall>r\<in>set [example_record 1]. \<exists>pre el post plat plon d.
          response_elements data = pre @ el # post
        \<and> extract_center el = Some (plat, plon)
        \<and> exact_distance 0 0 plat plon = Inr d
        \<and> r = to_output_record (element_name el) (element_address el) d
        \<and> (\<forall>e\<in>set pre. extract_center e \<noteq> None \<longrightarrow>
              (element_name e, element_address e) \<noteq> (element_name el, element_address el))"
    by blast
  from d have data: "data = example_response" by (simp add: example_post)
  from b obtain pre el post plat plon d where
    e: "response_elements example_response = pre @ el # post"
      "extract_center el = Some (plat, plon)"
      "exact_distance 0 0 plat plon = Inr d"
      "example_record 1 = to_output_record (element_name el) (element_address el) d"
    unfolding data by auto
  from e(4) have "d = 1" by (simp add: example_record_def to_output_record_def)
  with e have "\<exists>pre el post plat plon.
          response_elements example_response = pre @ el # post
        \<and> extract_center el = Some (plat, plon)
        \<and> exact_distance 0 0 plat plon = Inr 1
        \<and> example_record 1 = to_output_record (element_name el) (element_address el) 1"
    by blast
  with h a example_veterinary_loop show ?thesis by blast
qed

text \<open>
  C5. In both searches and for every distance function, whenever the search returns a
  list for some \<open>top_n\<close>, there is one list, a permutation of the records the loop
  produced, whose \<^verbatim>\<open>distance_m\<close> fields are ints in non-decreasing order, such that the
  list returned is its first \<open>max 0 top_n\<close> records, with \<^verbatim>\<open>distance_m\<close> fields in
  non-decreasing order as well; for every other \<open>n\<close> the search returns the first
  \<open>max 0 n\<close> records of the same list, and for \<open>n = 0\<close> the empty list.
\<close>

theorem results_sorted_then_truncated:
  "(search_nearby_veterinary endpoint f latitude longitude radius_m top_n url ua
      = (trace, Inr out) \<longrightarrow>
    (\<exists>data records full ds.
        overpass_post endpoint (Veterinary_Query radius_m latitude longitude) url ua 45 6
          = (trace, Inr data)
      \<and> veterinary_loop f latitude longitude (response_elements data) [] = Inr records
      \<and> mset full = mset records
      \<and> map (\<lambda>r. map_of r ''distance_m'') full = map (\<lambda>d. Some (PInt d)) ds \<and> sorted ds
      \<and> out = take (nat (max 0 top_n)) full
      \<and> (\<exists>ds2. map (\<lambda>r. map_of r ''distance_m'') out = map (\<lambda>d. Some (PInt d)) ds2
            \<and> sorted ds2)
      \<and> (\<forall>n. search_nearby_veterinary endpoint f latitude longitude radius_m n url ua
            = (trace, Inr (take (nat (max 0 n)) full)))
      \<and> search_nearby_veterinary endpoint f latitude longitude radius_m 0 url ua
          = (trace, Inr [])))
 \<and> (search_nearby_pet_friendly_food endpoint f latitude longitude radius_m top_n strict url ua
      = (trace, Inr out) \<longrightarrow>
    (\<exists>data records full ds.
        overpass_post endpoint (food_query strict radius_m latitude longitude) url ua 45 6
          = (trace, Inr data)
      \<and> food_loop f latitude longitude (response_elements data) {} [] = Inr records
      \<and> mset full = mset records
      \<and> map (\<lambda>r. map_of r ''distance_m'') full = map (\<lambda>d. Some (PInt d)) ds \<and> sorted ds
      \<and> out = take (nat (max 0 top_n)) full
      \<and> (\<exists>ds2. map (\<lambda>r. map_of r ''distance_m'') out = map (\<lambda>d. Some (PInt d)) ds2
            \<and> sorted ds2)
      \<and> (\<forall>n. search_nearby_pet_friendly_food endpoint f latitude longitude radius_m n strict
              url ua
            = (trace, Inr (take (nat (max 0 n)) full)))
      \<and> search_nearby_pet_friendly_food endpoint f latitude longitude radius_m 0 strict url ua
          = (trace, Inr [])))"
proof (intro conjI impI)
  assume "search_nearby_veterinary endpoint f latitude longitude radius_m top_n url ua
      = (trace, Inr out)"
  from search_nearby_veterinary_Inr[OF this] obtain data records where
    h: "overpass_post endpoint (Veterinary_Query radius_m latitude longitude) url ua 45 6
          = (trace, Inr data)"
    and l: "veterinary_loop f latitude longitude (response_elements data) [] = Inr records"
    and t: "sort_truncate records top_n = Inr out" by blast
  from sorted_then_truncated[OF veterinary_loop_distance[OF l] t] obtain full ds where
    f: "mset full = mset records"
      "map (\<lambda>r. map_of r ''distance_m'') full = map (\<lambda>d. Some (PInt d)) ds" "sorted ds"
      "out = take (nat (max 0 top_n)) full"
      "\<exists>ds2. map (\<lambda>r. map_of r ''distance_m'') out = map (\<lambda>d. Some (PInt d)) ds2 \<and> sorted ds2"
      "\<forall>n. sort_truncate records n = Inr (take (nat (max 0 n)) full)"
    by blast
  have a: "\<forall>n. search_nearby_veterinary endpoint f latitude longitude radius_m n url ua
            = (trace, Inr (take (nat (max 0 n)) full))"
    by (simp add: search_nearby_veterinary_eq[OF h l] f(6))
  then have "search_nearby_veterinary endpoint f latitude longitude radius_m 0 url ua
      = (trace, Inr (take (nat (max 0 0)) full))" by blast
  then have z: "search_nearby_veterinary endpoint f latitude longitude radius_m 0 url ua
      = (trace, Inr [])" by simp
  from h l f(1-5) a z show "\<exists>data records full ds.
        overpass_post endpoint (Veterinary_Query radius_m latitude longitude) url ua 45 6
          = (trace, Inr data)
      \<and> veterinary_loop f latitude longitude (response_elements data) [] = Inr records
      \<and> mset full = mset records
      \<and> map (\<lambda>r. map_of r ''distance_m'') full = map (\<lambda>d. Some (PInt d)) ds \<and> sorted ds
      \<and> out = take (nat (max 0 top_n)) full
      \<and> (\<exists>ds2. map (\<lambda>r. map_of r ''distance_m'') out = map (\<lambda>d. Some (PInt d)) ds2
            \<and> sorted ds2)
      \<and> (\<forall>n. search_nearby_veterinary endpoint f latitude longitude radius_m n url ua
            = (trace, Inr (take (nat (max 0 n)) full)))
      \<and> search_nearby_veterinary endpoint f latitude longitude radius_m 0 url ua
          = (trace, Inr [])"
    by blast
next
  assume "search_nearby_pet_friendly_food endpoint f latitude longitude radius_m top_n strict
      url ua = (trace, Inr out)"
  from search_nearby_pet_friendly_food_Inr[OF this] obtain data records where
    h: "overpass_post endpoint (food_query strict radius_m latitude longitude) url ua 45 6
          = (trace, Inr data)"
    and l: "food_loop f latitude longitude (response_elements data) {} [] = Inr records"
    and t: "sort_truncate records top_n = Inr out" by blast
  from sorted_then_truncated[OF food_loop_distance[OF l] t] obtain full ds where
    f: "mset full = mset records"
      "map (\<lambda>r. map_of r ''distance_m'') full = map (\<lambda>d. Some (PInt d)) ds" "sorted ds"
      "out = take (nat (max 0 top_n)) full"
      "\<exists>ds2. map (\<lambda>r. map_of r ''distance_m'') out = map (\<lambda>d. Some (PInt d)) ds2 \<and> sorted ds2"
      "\<forall>n. sort_truncate records n = Inr (take (nat (max 0 n)) full)"
    by blast
  have a: "\<forall>n. search_nearby_pet_friendly_food endpoint f latitude longitude radius_m n strict
        url ua = (trace, Inr (take (nat (max 0 n)) full))"
    by (simp add: search_nearby_pet_friendly_food_eq[OF h l] f(6))
  then have "search_nearby_pet_friendly_food endpoint f latitude longitude radius_m 0 strict
      url ua = (trace, Inr (take (nat (max 0 0)) full))" by blast
  then have z: "search_nearby_pet_friendly_food endpoint f latitude longitude radius_m 0 strict
      url ua = (trace, Inr [])" by simp
  from h l f(1-5) a z show "\<exists>data records full ds.
        overpass_post endpoint (food_query strict radius_m latitude longitude) url ua 45 6
          = (trace, Inr data)
      \<and> food_loop f latitude longitude (response_elements data) {} [] = Inr records
      \<and> mset full = mset records
      \<and> map (\<lambda>r. map_of r ''distance_m'') full = map (\<lambda>d. Some (PInt d)) ds \<and> sorted ds
      \<and> out = take (nat (max 0 top_n)) full
      \<and> (\<exists>ds2. map (\<lambda>r. map_of r ''distance_m'') out = map (\<lambda>d. Some (PInt d)) ds2
            \<and> sorted ds2)
      \<and> (\<forall>n. search_nearby_pet_friendly_food endpoint f latitude longitude radius_m n strict
              url ua
            = (trace, Inr (take (nat (max 0 n)) full)))
      \<and> search_nearby_pet_friendly_food endpoint f latitude longitude radius_m 0 strict url ua
          = (trace, Inr [])"
    by blast
qed

theorem results_sorted_then_truncated_witness:
  "veterinary_loop exact_distance 0 0 (response_elements example_response) []
     = Inr [example_record 1, example_record 0]
   \<and> search_nearby_veterinary example_endpoint exact_distance 0 0 1500 20 ''u'' ''a''
     = ([Post (post_request (Veterinary_Query 1500 0 0) ''u'' ''a'' 45)],
        Inr [example_record 0, example_record 1])
   \<and> search_nearby_veterinary example_endpoint exact_distance 0 0 1500 1 ''u'' ''a''
     = ([Post (post_request (Veterinary_Query 1500 0 0) ''u'' ''a'' 45)], Inr [example_record 0])
   \<and> search_nearby_veterinary example_endpoint exact_distance 0 0 1500 0 ''u'' ''a''
     = ([Post (post_request (Veterinary_Query 1500 0 0) ''u'' ''a'' 45)], Inr [])
   \<and> search_nearby_pet_friendly_food example_endpoint exact_distance 0 0 1500 20 False ''u'' ''a''
     = ([Post (post_request (food_query False 1500 0 0) ''u'' ''a'' 45)], Inr [example_record 1])
   \<and> search_nearby_pet_friendly_food example_endpoint exact_distance 0 0 1500 0 False ''u'' ''a''
     = ([Post (post_request (food_query False 1500 0 0) ''u'' ''a'' 45)], Inr [])"
proof -
  let ?tv = "[Post (post_request (Veterinary_Query 1500 0 0) ''u'' ''a'' 45)]"
  let ?tf = "[Post (post_request (food_query False 1500 0 0) ''u'' ''a'' 45)]"
  have v20: "search_nearby_veterinary example_endpoint exact_distance 0 0 1500 20 ''u'' ''a''
      = (?tv, Inr [example_record 0, example_record 1])"
    by (rule example_veterinary)
  have v1: "search_nearby_veterinary example_endpoint exact_distance 0 0 1500 1 ''u'' ''a''
      = (?tv, Inr [example_record 0])"
    by (rule example_veterinary)
  have f20: "search_nearby_pet_friendly_food example_endpoint exact_distance 0 0 1500 20 False
      ''u'' ''a'' = (?tf, Inr [example_record 1])"
    by (rule example_food)
  have v0: "search_nearby_veterinary example_endpoint exact_distance 0 0 1500 0 ''u'' ''a''
      = (?tv, Inr [])"
    using results_sorted_then_truncated[where endpoint=example_endpoint and f=exact_distance
        and radius_m=1500 and latitude=0 and longitude=0 and url="''u''" and ua="''a''"
        and trace="?tv" and top_n=1 and out="[example_record 0]" and strict=False] v1
    by blast
  have f0: "search_nearby_pet_friendly_food example_endpoint exact_distance 0 0 1500 0 False
      ''u'' ''a'' = (?tf, Inr [])"
    using results_sorted_then_truncated[where endpoint=example_endpoint and f=exact_distance
        and radius_m=1500 and latitude=0 and longitude=0 and url="''u''" and ua="''a''"
        and trace="?tf" and top_n=20 and out="[example_record 1]" and strict=False] f20
    by blast
  from example_veterinary_loop v20 v1 v0 f20 f0 show ?thesis by blast
qed

lemma veterinary_records_built:
  assumes "snd (search_nearby_veterinary endpoint f latitude longitude radius_m top_n url ua)
      = Inr out"
    and "r \<in> set out"
  shows "\<exists>name address d. r = to_output_record name address d"
proof -
  obtain trace where "search_nearby_veterinary endpoint f latitude longitude radius_m top_n
      url ua = (trace, Inr out)"
    using assms(1) by (metis prod.collapse)
  from search_nearby_veterinary_Inr[OF this] obtain data records where
    l: "veterinary_loop f latitude longitude (response_elements data) [] = Inr records"
    and t: "sort_truncate records top_n = Inr out" by blast
  from sort_truncate_subset[OF t] assms(2) have "r \<in> set records" by blast
  then have "r \<in> snd ` set (List.map_filter (candidate f latitude longitude)
      (response_elements data))"
    using veterinary_loop_Inr[OF l] by simp
  then show ?thesis by (rule candidates_built)
qed

lemma food_records_built:
  assumes "snd (search_nearby_pet_friendly_food endpoint f latitude longitude radius_m top_n
      strict url ua) = Inr out"
    and "r \<in> set out"
  shows "\<exists>name address d. r = to_output_record name address d"
proof -
  obtain trace where "search_nearby_pet_friendly_food endpoint f latitude longitude radius_m
      top_n strict url ua = (trace, Inr out)"
    using assms(1) by (metis prod.collapse)
  from search_nearby_pet_friendly_food_Inr[OF this] obtain data records where
    l: "food_loop f latitude longitude (response_elements data) {} [] = Inr records"
    and t: "sort_truncate records top_n = Inr out" by blast
  let ?cands = "List.map_filter (candidate f latitude longitude) (response_elements data)"
  from sort_truncate_subset[OF t] assms(2) have "r \<in> set records" by blast
  then have "r \<in> set (map snd (keep_first {} ?cands))"
    using food_loop_Inr[OF l] by simp
  with keep_first_subset[of "{}" ?cands] have "r \<in> snd ` set ?cands" by auto
  then show ?thesis by (rule candidates_built)
qed

lemma call_veterinary_built:
  assumes "snd (call_veterinary endpoint f latitude longitude radius_m top_n kw) = Inr out"
    and "r \<in> set out"
  shows "\<exists>name address d. r = to_output_record name address d"
  using assms veterinary_records_built
  by (auto simp: call_veterinary_def split: if_splits)

lemma call_pet_friendly_food_built:
  assumes "snd (call_pet_friendly_food endpoint f latitude longitude radius_m top_n kw) = Inr out"
    and "r \<in> set out"
  shows "\<exists>name address d. r = to_output_record name address d"
  using assms food_records_built
  by (auto simp: call_pet_friendly_food_def split: if_splits)

lemma search_nearby_built:
  assumes "snd (search_nearby endpoint f latitude longitude radius_m top_n mode kw) = Inr out"
    and "r \<in> set out"
  shows "\<exists>name address d. r = to_output_record name address d"
  using assms call_veterinary_built call_pet_friendly_food_built
  by (auto simp: search_nearby_def Let_def split: if_splits)

text \<open>
  C6. Every record in the list that a search returns, whichever of the five entry
  points returned it, has exactly the keys \<^verbatim>\<open>name\<close>, \<^verbatim>\<open>address\<close>, \<^verbatim>\<open>rating\<close> and
  \<^verbatim>\<open>distance_m\<close>, each once and in this order, and its \<^verbatim>\<open>rating\<close> is \<^verbatim>\<open>None\<close>.
\<close>

theorem output_record_has_four_keys:
  assumes "snd (search_nearby_veterinary endpoint f latitude longitude radius_m top_n url ua)
       = Inr out
     \<or> snd (search_nearby_pet_friendly_food endpoint f latitude longitude radius_m top_n strict
           url ua) = Inr out
     \<or> snd (search_nearby endpoint f latitude longitude radius_m top_n mode kw) = Inr out
     \<or> snd (search_nearby_veterinary_legacy endpoint f api_key latitude longitude radius_m
           language top_n kw) = Inr out
     \<or> snd (search_nearby_veterinary_v1 endpoint f api_key latitude longitude radius
           max_results field_mask kw) = Inr out"
    and "r \<in> set out"
  shows "map fst r = [''name'', ''address'', ''rating'', ''distance_m'']
       \<and> map_of r ''rating'' = Some PNone"
proof -
  have "\<exists>name address d. r = to_output_record name address d"
    using assms(1)
  proof (elim disjE)
    assume "snd (search_nearby_veterinary endpoint f latitude longitude radius_m top_n url ua)
        = Inr out"
    then show ?thesis using assms(2) by (rule veterinary_records_built)
  next
    assume "snd (search_nearby_pet_friendly_food endpoint f latitude longitude radius_m top_n
        strict url ua) = Inr out"
    then show ?thesis using assms(2) by (rule food_records_built)
  next
    assume "snd (search_nearby endpoint f latitude longitude radius_m top_n mode kw) = Inr out"
    then show ?thesis using assms(2) by (rule search_nearby_built)
  next
    assume "snd (search_nearby_veterinary_legacy endpoint f api_key latitude longitude radius_m
        language top_n kw) = Inr out"
    then show ?thesis using assms(2)
      unfolding search_nearby_veterinary_legacy_def by (rule call_veterinary_built)
  next
    assume "snd (search_nearby_veterinary_v1 endpoint f api_key latitude longitude radius
        max_results field_mask kw) = Inr out"
    then show ?thesis using assms(2)
      unfolding search_nearby_veterinary_v1_def by (rule call_veterinary_built)
  qed
  then show ?thesis
    by (auto simp: keys_to_output_record rating_to_output_record)
qed

theorem output_record_has_four_keys_witness:
  "snd (search_nearby_veterinary example_endpoint exact_distance 0 0 1500 20 ''u'' ''a'')
     = Inr [example_record 0, example_record 1]
   \<and> snd (search_nearby_pet_friendly_food example_endpoint exact_distance 0 0 1500 20 True
          ''u'' ''a'')
     = Inr [example_record 1]
   \<and> map fst (example_record 1) = [''name'', ''address'', ''rating'', ''distance_m'']
   \<and> map_of (example_record 1) ''rating'' = Some PNone"
proof -
  have v: "snd (search_nearby_veterinary example_endpoint exact_distance 0 0 1500 20 ''u'' ''a'')
      = Inr [example_record 0, example_record 1]"
    by (simp add: example_veterinary)
  have f: "snd (search_nearby_pet_friendly_food example_endpoint exact_distance 0 0 1500 20 True
      ''u'' ''a'') = Inr [example_record 1]"
    by (simp add: example_food)
  have m: "example_record 1 \<in> set [example_record 0, example_record 1]" by simp
  have "map fst (example_record 1) = [''name'', ''address'', ''rating'', ''distance_m'']
       \<and> map_of (example_record 1) ''rating'' = Some PNone"
    by (rule output_record_has_four_keys[where out="[example_record 0, example_record 1]",
          OF disjI1, OF v m])
  with v f show ?thesis by blast
qed

section \<open>Properties of the dispatch on the mode\<close>

lemma whitespace_lower:
  "list_all (\<lambda>c. lower_char c = c)
     [CHR '' '', CHR 0x09, CHR 0x0A, CHR 0x0B, CHR 0x0C, CHR 0x0D,
      CHR 0x1C, CHR 0x1D, CHR 0x1E, CHR 0x1F, CHR 0x85, CHR 0xA0]"
  by (simp add: lower_char_def capital_letters_def small_letters_def)

lemma isspace_lower: "py_isspace c \<Longrightarrow> lower_char c = c"
  using whitespace_lower unfolding py_isspace_def list_all_iff by blast

lemma dropWhile_all: "list_all P xs \<Longrightarrow> dropWhile P xs = []"
  by (induction xs) simp_all

lemma dropWhile_hd: "xs \<noteq> [] \<Longrightarrow> \<not> P (hd xs) \<Longrightarrow> dropWhile P xs = xs"
  by (cases xs) simp_all

lemma py_strip_padded:
  assumes "list_all py_isspace ws1" "list_all py_isspace ws2"
    and "s \<noteq> []" "\<not> py_isspace (hd s)" "\<not> py_isspace (last s)"
  shows "py_strip (ws1 @ s @ ws2) = s"
proof -
  have a: "dropWhile py_isspace (ws1 @ s @ ws2) = dropWhile py_isspace (s @ ws2)"
    using assms(1) by (simp add: list_all_iff dropWhile_append2)
  have b: "dropWhile py_isspace (s @ ws2) = s @ ws2"
    using assms(3,4) by (cases s) simp_all
  have c: "dropWhile py_isspace (rev ws2 @ rev s) = dropWhile py_isspace (rev s)"
    using assms(2) by (intro dropWhile_append2) (simp add: list_all_iff)
  have "hd (rev s) = last s" using assms(3) by (simp add: hd_rev)
  then have d: "dropWhile py_isspace (rev s) = rev s"
    using assms(3,5) by (intro dropWhile_hd) simp_all
  show ?thesis by (simp add: py_strip_def a b c d)
qed

lemma py_strip_whitespace:
  assumes "list_all py_isspace ws"
  shows "py_strip ws = []"
proof -
  have e: "dropWhile py_isspace ws = []"
    using assms by (rule dropWhile_all)
  show ?thesis unfolding py_strip_def e by simp
qed

lemma py_lower_ends:
  assumes "py_lower s = t" "t \<noteq> []" "\<not> py_isspace (hd t)" "\<not> py_isspace (last t)"
  shows "s \<noteq> [] \<and> \<not> py_isspace (hd s) \<and> \<not> py_isspace (last s)"
proof -
  from assms(1,2) have n: "s \<noteq> []" by (auto simp: py_lower_def)
  have h: "hd t = lower_char (hd s)" "last t = lower_char (last s)"
    using assms(1) n by (auto simp: py_lower_def hd_map last_map)
  from h assms(3,4) isspace_lower[of "hd s"] isspace_lower[of "last s"] n
  show ?thesis by auto
qed

lemma py_lower_strip_padded:
  assumes "list_all py_isspace ws1" "list_all py_isspace ws2"
    and "py_lower s = t" "t \<noteq> []" "\<not> py_isspace (hd t)" "\<not> py_isspace (last t)"
  shows "py_lower (py_strip (ws1 @ s @ ws2)) = t"
proof -
  from py_lower_ends[OF assms(3-6)] have "py_strip (ws1 @ s @ ws2) = s"
    using py_strip_padded[OF assms(1,2)] by blast
  with assms(3) show ?thesis by simp
qed

lemma mode_names_ends:
  "\<not> py_isspace (hd ''veterinary'')" "\<not> py_isspace (last ''veterinary'')"
  "\<not> py_isspace (hd ''pet_friendly_food'')" "\<not> py_isspace (last ''pet_friendly_food'')"
  "\<not> py_isspace (hd ''pet_food'')" "\<not> py_isspace (last ''pet_food'')"
  "\<not> py_isspace (hd ''food'')" "\<not> py_isspace (last ''food'')"
  by (simp_all add: py_isspace_def)

lemma search_nearby_food_mode:
  assumes "list_all py_isspace ws1" "list_all py_isspace ws2"
    and "py_lower s \<in> set [''pet_friendly_food'', ''pet_food'', ''food'']"
  shows "search_nearby endpoint f latitude longitude radius_m top_n (Some (ws1 @ s @ ws2)) kw
      = call_pet_friendly_food endpoint f latitude longitude radius_m top_n kw"
proof -
  let ?m = "py_lower (py_strip (ws1 @ s @ ws2))"
  from assms(3) have "py_lower s = ''pet_friendly_food'' \<or> py_lower s = ''pet_food''
      \<or> py_lower s = ''food''" by simp
  then have "?m = py_lower s"
    using py_lower_strip_padded[OF assms(1,2), of s] mode_names_ends by fastforce
  with assms(3) have "?m \<noteq> ''veterinary''"
    and "?m \<in> set [''pet_friendly_food'', ''pet_food'', ''food'']" by auto
  then show ?thesis
    by (simp only: search_nearby_def Let_def or_empty_def option.case if_False if_True)
qed

lemma search_nearby_veterinary_mode:
  assumes "list_all py_isspace ws1" "list_all py_isspace ws2"
    and "py_lower s = ''veterinary''"
  shows "search_nearby endpoint f latitude longitude radius_m top_n (Some (ws1 @ s @ ws2)) kw
      = call_veterinary endpoint f latitude longitude radius_m top_n kw"
proof -
  have "py_lower (py_strip (ws1 @ s @ ws2)) = ''veterinary''"
    using py_lower_strip_padded[OF assms(1,2,3)] mode_names_ends by simp
  then show ?thesis
    by (simp add: search_nearby_def Let_def or_empty_def)
qed

lemma search_nearby_unknown_mode:
  assumes "py_lower (py_strip (or_empty mode))
      \<notin> set [''veterinary'', ''pet_friendly_food'', ''pet_food'', ''food'']"
  shows "search_nearby endpoint f latitude longitude radius_m top_n mode kw
      = ([], Inl (ValueError MODE_ERROR))"
  using assms by (simp add: search_nearby_def Let_def)

lemma invalid_mode:
  "py_lower (py_strip (or_empty (Some ''invalid''))) = ''invalid''"
  by (simp add: or_empty_def py_strip_def py_isspace_def py_lower_def lower_char_def
      capital_letters_def small_letters_def)

lemma example_modes:
  "list_all py_isspace [CHR 0xA0, CHR '' '']"
  "list_all py_isspace [CHR 0x09, CHR 0x85]"
  "py_lower ''Pet_Food'' = ''pet_food''"
  "py_lower ''VETERINARY'' = ''veterinary''"
  by (simp_all add: py_isspace_def py_lower_def lower_char_def capital_letters_def
      small_letters_def)

text \<open>
  C7. For every mode that is not, after stripping and lowercasing, one of the four
  recognized names, \<^verbatim>\<open>search_nearby\<close> raises the \<^verbatim>\<open>ValueError\<close> at once: the trace of
  the run is empty, so no request is sent and nothing is retried.
\<close>

theorem search_nearby_rejects_unknown_mode:
  assumes "py_lower (py_strip (or_empty mode))
      \<notin> set [''veterinary'', ''pet_friendly_food'', ''pet_food'', ''food'']"
  shows "search_nearby endpoint f latitude longitude radius_m top_n mode kw
      = ([], Inl (ValueError MODE_ERROR))
    \<and> attempts (fst (search_nearby endpoint f latitude longitude radius_m top_n mode kw)) = 0"
  using search_nearby_unknown_mode[OF assms] by (simp add: attempts_def)

theorem search_nearby_rejects_unknown_mode_witness:
  "search_nearby example_endpoint exact_distance 0 0 1500 20 (Some ''invalid'') no_kwargs
     = ([], Inl (ValueError MODE_ERROR))"
proof -
  have h: "py_lower (py_strip (or_empty (Some ''invalid'')))
      \<notin> set [''veterinary'', ''pet_friendly_food'', ''pet_food'', ''food'']"
    unfolding invalid_mode by simp
  from search_nearby_rejects_unknown_mode[OF h] show ?thesis by blast
qed

text \<open>
  C9. The legacy adapter returns what \<^verbatim>\<open>search_nearby_veterinary(latitude, longitude,
  radius_m=radius, top_n=top_n)\<close> returns, effects included; its result does not depend
  on \<^verbatim>\<open>api_key\<close> and \<^verbatim>\<open>language\<close>; keyword arguments, if any, are passed on as they
  are.
\<close>

theorem legacy_adapter_forwards:
  "search_nearby_veterinary_legacy endpoint f api_key latitude longitude radius language top_n
       no_kwargs
     = search_nearby_veterinary endpoint f latitude longitude radius top_n
         DEFAULT_OVERPASS_URL DEFAULT_USER_AGENT
   \<and> search_nearby_veterinary_legacy endpoint f api_key latitude longitude radius language
       top_n kw
     = search_nearby_veterinary_legacy endpoint f api_key2 latitude longitude radius language2
         top_n kw
   \<and> search_nearby_veterinary_legacy endpoint f api_key latitude longitude radius language
       top_n kw
     = call_veterinary endpoint f latitude longitude radius top_n kw"
  by (simp add: search_nearby_veterinary_legacy_def call_veterinary_def no_kwargs_def)

text \<open>
  C10. \<^verbatim>\<open>search_nearby\<close> matches the mode after stripping the surrounding whitespace
  and lowercasing: any spelling in upper and lower case of \<^verbatim>\<open>pet_friendly_food\<close>,
  \<^verbatim>\<open>pet_food\<close> or \<^verbatim>\<open>food\<close>, with whitespace around it, runs the food search (with
  \<^verbatim>\<open>strict=True\<close> and the default endpoint when no keyword argument is given), and any
  such spelling of \<^verbatim>\<open>veterinary\<close> runs the veterinary search. A mode that is
  \<^verbatim>\<open>None\<close>, empty or only whitespace raises the \<^verbatim>\<open>ValueError\<close>.
\<close>

theorem search_nearby_normalizes_mode:
  "(list_all py_isspace ws1 \<and> list_all py_isspace ws2
      \<and> py_lower s \<in> set [''pet_friendly_food'', ''pet_food'', ''food''] \<longrightarrow>
      search_nearby endpoint f latitude longitude radius_m top_n (Some (ws1 @ s @ ws2)) kw
        = call_pet_friendly_food endpoint f latitude longitude radius_m top_n kw)
   \<and> (list_all py_isspace ws1 \<and> list_all py_isspace ws2 \<and> py_lower s = ''veterinary'' \<longrightarrow>
      search_nearby endpoint f latitude longitude radius_m top_n (Some (ws1 @ s @ ws2)) kw
        = call_veterinary endpoint f latitude longitude radius_m top_n kw)
   \<and> call_pet_friendly_food endpoint f latitude longitude radius_m top_n no_kwargs
        = search_nearby_pet_friendly_food endpoint f latitude longitude radius_m top_n True
            DEFAULT_OVERPASS_URL DEFAULT_USER_AGENT
   \<and> search_nearby endpoint f latitude longitude radius_m top_n None kw
        = ([], Inl (ValueError MODE_ERROR))
   \<and> search_nearby endpoint f latitude longitude radius_m top_n (Some []) kw
        = ([], Inl (ValueError MODE_ERROR))
   \<and> (list_all py_isspace ws1 \<longrightarrow>
      search_nearby endpoint f latitude longitude radius_m top_n (Some ws1) kw
        = ([], Inl (ValueError MODE_ERROR)))"
proof (intro conjI impI)
  assume "list_all py_isspace ws1 \<and> list_all py_isspace ws2
      \<and> py_lower s \<in> set [''pet_friendly_food'', ''pet_food'', ''food'']"
  then show "search_nearby endpoint f latitude longitude radius_m top_n (Some (ws1 @ s @ ws2)) kw
        = call_pet_friendly_food endpoint f latitude longitude radius_m top_n kw"
    using search_nearby_food_mode by blast
next
  assume "list_all py_isspace ws1 \<and> list_all py_isspace ws2 \<and> py_lower s = ''veterinary''"
  then show "search_nearby endpoint f latitude longitude radius_m top_n (Some (ws1 @ s @ ws2)) kw
        = call_veterinary endpoint f latitude longitude radius_m top_n kw"
    using search_nearby_veterinary_mode by blast
next
  show "call_pet_friendly_food endpoint f latitude longitude radius_m top_n no_kwargs
        = search_nearby_pet_friendly_food endpoint f latitude longitude radius_m top_n True
            DEFAULT_OVERPASS_URL DEFAULT_USER_AGENT"
    by (simp add: call_pet_friendly_food_def no_kwargs_def)
next
  have "py_lower (py_strip (or_empty None)) = []"
    by (simp add: or_empty_def py_strip_def py_lower_def)
  then show "search_nearby endpoint f latitude longitude radius_m top_n None kw
        = ([], Inl (ValueError MODE_ERROR))"
    by (intro search_nearby_unknown_mode) simp
next
  have "py_lower (py_strip (or_empty (Some []))) = []"
    by (simp add: or_empty_def py_strip_def py_lower_def)
  then show "search_nearby endpoint f latitude longitude radius_m top_n (Some []) kw
        = ([], Inl (ValueError MODE_ERROR))"
    by (intro search_nearby_unknown_mode) simp
next
  assume "list_all py_isspace ws1"
  then have "py_lower (py_strip (or_empty (Some ws1))) = []"
    by (simp add: or_empty_def py_strip_whitespace py_lower_def)
  then show "search_nearby endpoint f latitude longitude radius_m top_n (Some ws1) kw
        = ([], Inl (ValueError MODE_ERROR))"
    by (intro search_nearby_unknown_mode) simp
qed

theorem search_nearby_normalizes_mode_witness:
  "search_nearby example_endpoint exact_distance 0 0 1500 20
       (Some ([CHR 0xA0, CHR '' ''] @ ''Pet_Food'' @ [CHR 0x09, CHR 0x85])) no_kwargs
     = call_pet_friendly_food example_endpoint exact_distance 0 0 1500 20 no_kwargs
   \<and> search_nearby example_endpoint exact_distance 0 0 1500 20
       (Some ([CHR 0xA0, CHR '' ''] @ ''VETERINARY'' @ [CHR 0x09, CHR 0x85])) no_kwargs
     = call_veterinary example_endpoint exact_distance 0 0 1500 20 no_kwargs
   \<and> search_nearby example_endpoint exact_distance 0 0 1500 20 (Some [CHR 0xA0, CHR '' ''])
       no_kwargs
     = ([], Inl (ValueError MODE_ERROR))"
proof -
  have f: "list_all py_isspace [CHR 0xA0, CHR '' ''] \<and> list_all py_isspace [CHR 0x09, CHR 0x85]
      \<and> py_lower ''Pet_Food'' \<in> set [''pet_friendly_food'', ''pet_food'', ''food'']"
    using example_modes by simp
  have v: "list_all py_isspace [CHR 0xA0, CHR '' ''] \<and> list_all py_isspace [CHR 0x09, CHR 0x85]
      \<and> py_lower ''VETERINARY'' = ''veterinary''"
    using example_modes by simp
  have w: "list_all py_isspace [CHR 0xA0, CHR '' '']" by (rule example_modes)
  note a = search_nearby_normalizes_mode[where ?ws1.0="[CHR 0xA0, CHR '' '']"
      and ?ws2.0="[CHR 0x09, CHR 0x85]" and s="''Pet_Food''" and endpoint=example_endpoint
      and f=exact_distance and latitude=0 and longitude=0 and radius_m=1500 and top_n=20
      and kw=no_kwargs]
  note b = search_nearby_normalizes_mode[where ?ws1.0="[CHR 0xA0, CHR '' '']"
      and ?ws2.0="[CHR 0x09, CHR 0x85]" and s="''VETERINARY''" and endpoint=example_endpoint
      and f=exact_distance and latitude=0 and longitude=0 and radius_m=1500 and top_n=20
      and kw=no_kwargs]
  from a f w b v show ?thesis by blast
qed

end
